theory Spec2Isabelle
  imports Main
begin

section \<open>Python strings and integers\<close>

text \<open>
  The task manager is written in Python. A Python \<open>str\<close> is modelled as a \<open>string\<close>
  whose characters stand for the code points below 256; Python integers are unbounded and
  are modelled as \<open>int\<close>. The built-in operations that \<open>core.py\<close> and \<open>commands.py\<close>
  use on strings are written out below, each with the behaviour of CPython 3 on that
  range of code points. Exceptions are values: a function that can raise returns
  \<open>exn + 'a\<close>, with \<open>Inl\<close> for the exception.
\<close>

datatype exn = ValueError | TypeError | UnboundLocalError | EOFError | KeyboardInterrupt

text \<open>
  \<open>str.isspace\<close> on one character: the ASCII white space 9 to 13 and 28 to 32, the
  next-line control 133 and the no-break space 160.
\<close>

definition is_space :: "char \<Rightarrow> bool" where
  "is_space c = (let n = (of_char c :: nat)
                 in (9 \<le> n \<and> n \<le> 13) \<or> (28 \<le> n \<and> n \<le> 32) \<or> n = 133 \<or> n = 160)"

text \<open>\<open>s.strip()\<close>: white space is removed at both ends.\<close>

definition py_strip :: "string \<Rightarrow> string" where
  "py_strip s = rev (dropWhile is_space (rev (dropWhile is_space s)))"

text \<open>\<open>s.split(sep)\<close> for a one-character separator: never the empty list.\<close>

fun py_split :: "char \<Rightarrow> string \<Rightarrow> string list" where
  "py_split sep [] = [[]]"
| "py_split sep (c # cs) =
     (let ps = py_split sep cs
      in if c = sep then [] # ps else (c # hd ps) # tl ps)"

text \<open>\<open>sep.join(xs)\<close>.\<close>

fun py_join :: "string \<Rightarrow> string list \<Rightarrow> string" where
  "py_join sep [] = []"
| "py_join sep [x] = x"
| "py_join sep (x # y # ys) = x @ sep @ py_join sep (y # ys)"

text \<open>
  \<open>s.lower()\<close>: the ASCII capitals and the Latin-1 capitals 192 to 222 (except the
  multiplication sign 215) move 32 places up.
\<close>

definition lower_chr :: "char \<Rightarrow> char" where
  "lower_chr c = (let n = (of_char c :: nat)
                  in if (65 \<le> n \<and> n \<le> 90) \<or> (192 \<le> n \<and> n \<le> 222 \<and> n \<noteq> 215)
                     then char_of (n + 32) else c)"

definition py_lower :: "string \<Rightarrow> string" where
  "py_lower s = map lower_chr s"

text \<open>
  \<open>s.isdigit()\<close>: a non-empty string of digit characters. Below 256 these are the ten
  decimal digits and the superscripts two, three and one (178, 179, 185), which
  \<open>int\<close> does not accept.
\<close>

definition is_decimal :: "char \<Rightarrow> bool" where
  "is_decimal c = (let n = (of_char c :: nat) in 48 \<le> n \<and> n \<le> 57)"

definition isdigit_chr :: "char \<Rightarrow> bool" where
  "isdigit_chr c = (let n = (of_char c :: nat) in (48 \<le> n \<and> n \<le> 57) \<or> n = 178 \<or> n = 179 \<or> n = 185)"

definition py_isdigit :: "string \<Rightarrow> bool" where
  "py_isdigit s = (s \<noteq> [] \<and> list_all isdigit_chr s)"

text \<open>
  \<open>int(s)\<close> on a string. The white space that \<open>int\<close> drops at both ends is not that
  of \<open>strip\<close>: it is the ASCII white space 9 to 13 and 32, and the two white-space
  characters from 127 on, 133 and 160; the separators 28 to 31 are not dropped, and
  \<open>int\<close> raises \<open>ValueError\<close> on them. One sign is allowed, then come decimal digits,
  where single underscores may separate digits. Anything else raises \<open>ValueError\<close>.
\<close>

definition is_int_space :: "char \<Rightarrow> bool" where
  "is_int_space c = (let n = (of_char c :: nat)
                     in (9 \<le> n \<and> n \<le> 13) \<or> n = 32 \<or> n = 133 \<or> n = 160)"

definition int_strip :: "string \<Rightarrow> string" where
  "int_strip s = rev (dropWhile is_int_space (rev (dropWhile is_int_space s)))"

definition digit_val :: "char \<Rightarrow> nat" where
  "digit_val c = of_char c - 48"

definition digits_val :: "string \<Rightarrow> nat" where
  "digits_val s = foldl (\<lambda>a c. 10 * a + digit_val c) 0 s"

definition py_int :: "string \<Rightarrow> exn + int" where
  "py_int s =
     (let t = int_strip s;
          neg = (t \<noteq> [] \<and> hd t = CHR ''-'');
          body = (if t \<noteq> [] \<and> (hd t = CHR ''-'' \<or> hd t = CHR ''+'') then tl t else t);
          groups = py_split (CHR ''_'') body
      in if list_all (\<lambda>g. g \<noteq> [] \<and> list_all is_decimal g) groups
         then Inr ((if neg then - 1 else 1) * int (digits_val (concat groups)))
         else Inl ValueError)"

text \<open>\<open>str(n)\<close> on an integer, which is also what an f-string writes for it.\<close>

fun show_nat :: "nat \<Rightarrow> string" where
  "show_nat n = (if n < 10 then [char_of (48 + n)]
                 else show_nat (n div 10) @ [char_of (48 + n mod 10)])"

declare show_nat.simps [simp del]

definition py_str :: "int \<Rightarrow> string" where
  "py_str i = (if i < 0 then CHR ''-'' # show_nat (nat (- i)) else show_nat (nat i))"

section \<open>Task records and the parser of \<open>src/core.py\<close>\<close>

text \<open>
  A task is the tuple \<open>(tid, desc, lab, state, dep)\<close>. The status is a Python value that
  is a string after parsing but that \<open>modify\<close> can set to \<open>None\<close>, so it is a
  \<open>string option\<close>; the dependency is an integer or \<open>None\<close>.
\<close>

record task =
  tid :: int
  desc :: string
  lab :: "string list"
  state :: "string option"
  dep :: "int option"

text \<open>
  The body of the \<open>try\<close> block of \<open>parse_tasks\<close>, run on the fields of a line that has
  at least two of them. Every index is guarded by the length test before it, so the only
  exception is the \<open>ValueError\<close> of \<open>int\<close>.
\<close>

definition parse_fields :: "string list \<Rightarrow> exn + task" where
  "parse_fields parts =
     (case py_int (parts ! 0) of
        Inl e \<Rightarrow> Inl e
      | Inr i \<Rightarrow>
          (let description = parts ! 1;
               labels = (if 3 \<le> length parts \<and> parts ! 2 \<noteq> ''None''
                         then map py_strip
                                (filter (\<lambda>label. py_strip label \<noteq> [])
                                   (py_split (CHR '','') (parts ! 2)))
                         else []);
               status = (if 4 \<le> length parts \<and> py_strip (parts ! 3) \<noteq> []
                         then py_strip (parts ! 3) else ''suspended'')
           in if 5 \<le> length parts \<and> py_isdigit (py_strip (parts ! 4))
              then (case py_int (py_strip (parts ! 4)) of
                      Inl e \<Rightarrow> Inl e
                    | Inr d \<Rightarrow>
                        Inr \<lparr>tid = i, desc = description, lab = labels,
                             state = Some status, dep = Some d\<rparr>)
              else Inr \<lparr>tid = i, desc = description, lab = labels,
                        state = Some status, dep = None\<rparr>))"

text \<open>
  One turn of the loop of \<open>parse_tasks\<close>: \<open>Inr None\<close> when the line adds nothing,
  \<open>Inr (Some t)\<close> when it appends \<open>t\<close>. The handler catches \<open>ValueError\<close> and nothing
  else.
\<close>

definition parse_line :: "string \<Rightarrow> exn + task option" where
  "parse_line raw =
     (let line = py_strip raw
      in if line = [] then Inr None
         else (let parts = py_split (CHR '';'') line
               in if 2 \<le> length parts
                  then (case parse_fields parts of
                          Inr t \<Rightarrow> Inr (Some t)
                        | Inl ValueError \<Rightarrow> Inr None
                        | Inl e \<Rightarrow> Inl e)
                  else Inr None))"

fun parse_tasks :: "string list \<Rightarrow> exn + task list" where
  "parse_tasks [] = Inr []"
| "parse_tasks (line # rest) =
     (case parse_line line of
        Inl e \<Rightarrow> Inl e
      | Inr r \<Rightarrow>
          (case parse_tasks rest of
             Inl e \<Rightarrow> Inl e
           | Inr ts \<Rightarrow> Inr (case r of None \<Rightarrow> ts | Some t \<Rightarrow> t # ts)))"

section \<open>The operations of \<open>src/core.py\<close>\<close>

text \<open>
  The operator's terminal is a script of key events: \<open>input\<close> takes the next one,
  returns the text of a \<open>Line\<close>, raises \<open>KeyboardInterrupt\<close> on \<open>CtrlC\<close> and
  \<open>EOFError\<close> when the script is over. What the functions of \<open>core.py\<close> print is
  not part of the model.
\<close>

datatype key = Line string | CtrlC

definition statuses :: "string list" where
  "statuses = [''started'', ''suspended'', ''completed'', ''cancelled'']"

text \<open>\<open>max(task[0] for task in parsed_tasks)\<close>, called on a non-empty store only.\<close>

definition py_max :: "int list \<Rightarrow> int" where
  "py_max xs = foldl max (hd xs) (tl xs)"

text \<open>
  The loops \<open>for i, (tid, ...) in enumerate(parsed_tasks): if tid == task_id: ...; break\<close>
  stop at the first record with the id: \<open>first_match\<close> is its index.
\<close>

fun first_match :: "int \<Rightarrow> task list \<Rightarrow> nat option" where
  "first_match i [] = None"
| "first_match i (t # ts) = (if tid t = i then Some 0 else map_option Suc (first_match i ts))"

subsection \<open>\<open>add\<close>\<close>

text \<open>The question \<open>O/N\<close>, asked again until the answer is one of the four.\<close>

fun ask_dependence :: "key list \<Rightarrow> exn + string \<times> key list" where
  "ask_dependence [] = Inl EOFError"
| "ask_dependence (CtrlC # ks) = Inl KeyboardInterrupt"
| "ask_dependence (Line s # ks) =
     (if py_lower s \<in> set [''o'', ''n'', ''oui'', ''non''] then Inr (s, ks)
      else ask_dependence ks)"

text \<open>The status of the first record with the id, \<open>suspended\<close> when there is none.\<close>

fun parent_status :: "task list \<Rightarrow> int \<Rightarrow> string option" where
  "parent_status [] d = Some ''suspended''"
| "parent_status (t # ts) d = (if tid t = d then state t else parent_status ts d)"

text \<open>
  The loop \<open>while True\<close> of \<open>add\<close>: it ends at the first answer that is the id of a
  record, and returns that id with the status the new task gets.
\<close>

fun ask_which :: "task list \<Rightarrow> string \<Rightarrow> key list \<Rightarrow> exn + int \<times> string" where
  "ask_which parsed_tasks status [] = Inl EOFError"
| "ask_which parsed_tasks status (CtrlC # ks) = Inl KeyboardInterrupt"
| "ask_which parsed_tasks status (Line s # ks) =
     (case py_int s of
        Inl ValueError \<Rightarrow> ask_which parsed_tasks status ks
      | Inl e \<Rightarrow> Inl e
      | Inr id_dep \<Rightarrow>
          if id_dep \<in> set (map tid parsed_tasks)
          then Inr (id_dep,
                    if (status = ''started'' \<or> status = ''completed'')
                       \<and> parent_status parsed_tasks id_dep \<noteq> Some ''completed''
                    then ''suspended'' else status)
          else ask_which parsed_tasks status ks)"

text \<open>The line \<open>add\<close> formats for the new task.\<close>

definition new_task_line :: "int \<Rightarrow> string \<Rightarrow> string \<Rightarrow> string \<Rightarrow> int option \<Rightarrow> string" where
  "new_task_line new_id details labels_str status id_dep =
     py_str new_id @ '';'' @ details @ '';'' @ labels_str @ '';'' @ status @ '';''
       @ (case id_dep of None \<Rightarrow> ''None'' | Some d \<Rightarrow> py_str d) @ [CHR 0x0A]"

text \<open>
  \<open>add\<close> returns \<open>None\<close> for the tuple \<open>(None, None, None, None)\<close> of an abandoned
  dialogue, and the tuple \<open>(new_id, details, labels_list, new_task_line)\<close> otherwise.
\<close>

definition add ::
  "string list \<Rightarrow> string \<Rightarrow> string list option \<Rightarrow> string \<Rightarrow> key list
     \<Rightarrow> exn + (int \<times> string \<times> string list \<times> string) option" where
  "add tasks details labels status keys =
     (case parse_tasks tasks of
        Inl e \<Rightarrow> Inl e
      | Inr parsed_tasks \<Rightarrow>
          (let new_id = (if parsed_tasks \<noteq> [] then py_max (map tid parsed_tasks) + 1 else 1);
               labels_list = (case labels of None \<Rightarrow> [] | Some ls \<Rightarrow> ls);
               labels_str = (if labels_list \<noteq> [] then py_join '','' labels_list else ''None'');
               status1 = (if status \<notin> set statuses then ''suspended'' else status)
           in if parsed_tasks \<noteq> []
              then (case ask_dependence keys of
                      Inl KeyboardInterrupt \<Rightarrow> Inr None
                    | Inl e \<Rightarrow> Inl e
                    | Inr (dependence, keys1) \<Rightarrow>
                        if py_lower dependence \<in> set [''oui'', ''o'']
                        then (case ask_which parsed_tasks status1 keys1 of
                                Inl KeyboardInterrupt \<Rightarrow> Inr None
                              | Inl e \<Rightarrow> Inl e
                              | Inr (id_dep, status2) \<Rightarrow>
                                  Inr (Some (new_id, details, labels_list,
                                    new_task_line new_id details labels_str status2 (Some id_dep))))
                        else Inr (Some (new_id, details, labels_list,
                               new_task_line new_id details labels_str status1 None)))
              else Inr (Some (new_id, details, labels_list,
                     new_task_line new_id details labels_str status1 None))))"

subsection \<open>\<open>modify\<close>\<close>

text \<open>The pair \<open>(parent_found, parent_completed)\<close> that the inner loop of \<open>modify\<close> computes.\<close>

fun lookup_parent :: "task list \<Rightarrow> int \<Rightarrow> bool \<times> bool" where
  "lookup_parent [] d = (False, False)"
| "lookup_parent (t # ts) d =
     (if tid t = d then (True, state t = Some ''completed'') else lookup_parent ts d)"

text \<open>
  The status that \<open>modify\<close> stores. In the source the \<open>elif\<close> and the \<open>else\<close> belong to
  \<open>if new_status is not None\<close>: when a new status is given, the only statement is the
  warning for an invalid one, and the two other branches run when none is given.
\<close>

definition modify_state :: "task list \<Rightarrow> task \<Rightarrow> string option \<Rightarrow> string option" where
  "modify_state parsed_tasks t new_status =
     (if new_status \<noteq> None then state t
      else if (new_status = Some ''started'' \<or> new_status = Some ''completed'') \<and> dep t \<noteq> None
      then (let (parent_found, parent_completed) = lookup_parent parsed_tasks (the (dep t))
            in if parent_found \<and> \<not> parent_completed then state t else new_status)
      else new_status)"

definition modify ::
  "string list \<Rightarrow> string \<Rightarrow> string option \<Rightarrow> string option
     \<Rightarrow> exn + bool \<times> task list \<times> task option" where
  "modify tasks task_id new_details new_status =
     (case py_int task_id of
        Inl ValueError \<Rightarrow> Inr (False, [], None)
      | Inl e \<Rightarrow> Inl e
      | Inr i \<Rightarrow>
          (case parse_tasks tasks of
             Inl e \<Rightarrow> Inl e
           | Inr parsed_tasks \<Rightarrow>
               (case first_match i parsed_tasks of
                  None \<Rightarrow> Inr (False, parsed_tasks, None)
                | Some k \<Rightarrow>
                    (let t = parsed_tasks ! k;
                         state1 = modify_state parsed_tasks t new_status;
                         desc1 = (case new_details of None \<Rightarrow> desc t | Some d \<Rightarrow> d)
                     in Inr (True, parsed_tasks[k := t\<lparr>desc := desc1, state := state1\<rparr>],
                             Some t)))))"

subsection \<open>\<open>rm\<close>\<close>

text \<open>
  The loop of \<open>rm\<close> over the store, with the list \<open>filtered_tasks\<close> and the variable
  \<open>old_task\<close>, which is \<open>None\<close> here while nothing has been assigned to it.
\<close>

fun rm_loop :: "int \<Rightarrow> task list \<Rightarrow> task list \<Rightarrow> task option \<Rightarrow> task list \<times> task option" where
  "rm_loop i [] filtered_tasks old_task = (filtered_tasks, old_task)"
| "rm_loop i (t # ts) filtered_tasks old_task =
     (if tid t \<noteq> i then rm_loop i ts (filtered_tasks @ [t]) old_task
      else rm_loop i ts filtered_tasks (Some t))"

definition rm :: "string list \<Rightarrow> string \<Rightarrow> exn + bool \<times> task list \<times> task option" where
  "rm tasks task_id =
     (case py_int task_id of
        Inl ValueError \<Rightarrow>
          (case parse_tasks tasks of Inl e \<Rightarrow> Inl e | Inr ts \<Rightarrow> Inr (False, ts, None))
      | Inl e \<Rightarrow> Inl e
      | Inr i \<Rightarrow>
          (case parse_tasks tasks of
             Inl e \<Rightarrow> Inl e
           | Inr parsed_tasks \<Rightarrow>
               (let (filtered_tasks, old_task) = rm_loop i parsed_tasks [] None;
                    found = (length filtered_tasks < length parsed_tasks)
                in if \<not> found then Inr (found, filtered_tasks, None)
                   else (case old_task of
                           None \<Rightarrow> Inl UnboundLocalError
                         | Some old \<Rightarrow> Inr (found, filtered_tasks, Some old)))))"

subsection \<open>\<open>add_options\<close>\<close>

text \<open>
  The question whether to replace the dependency, asked again until the lower-cased answer
  is one of the four; an interrupt is not caught here.
\<close>

fun ask_modify_dep :: "key list \<Rightarrow> exn + string" where
  "ask_modify_dep [] = Inl EOFError"
| "ask_modify_dep (CtrlC # ks) = Inl KeyboardInterrupt"
| "ask_modify_dep (Line s # ks) =
     (if py_lower s \<in> set [''o'', ''n'', ''oui'', ''non''] then Inr (py_lower s)
      else ask_modify_dep ks)"

text \<open>The loop that appends each new label that is not in the list yet.\<close>

fun merge_labels :: "string list \<Rightarrow> string list \<Rightarrow> string list" where
  "merge_labels new_lab [] = new_lab"
| "merge_labels new_lab (label # labels) =
     (if label \<notin> set new_lab then merge_labels (new_lab @ [label]) labels
      else merge_labels new_lab labels)"

definition add_options ::
  "string list \<Rightarrow> string \<Rightarrow> string list option \<Rightarrow> int option \<Rightarrow> key list
     \<Rightarrow> exn + bool \<times> task list \<times> task option" where
  "add_options tasks task_id labels id_dep keys =
     (case py_int task_id of
        Inl ValueError \<Rightarrow> Inr (False, [], None)
      | Inl e \<Rightarrow> Inl e
      | Inr i \<Rightarrow>
          (case parse_tasks tasks of
             Inl e \<Rightarrow> Inl e
           | Inr parsed_tasks \<Rightarrow>
               (case first_match i parsed_tasks of
                  None \<Rightarrow> Inr (False, parsed_tasks, None)
                | Some k \<Rightarrow>
                    (let t = parsed_tasks ! k;
                         new_lab = (case labels of
                                      Some ls \<Rightarrow> merge_labels (lab t) ls
                                    | None \<Rightarrow> lab t)
                     in case (case id_dep of
                                None \<Rightarrow> Inr (dep t)
                              | Some d \<Rightarrow>
                                  (case dep t of
                                     None \<Rightarrow> Inr (Some d)
                                   | Some old_dep \<Rightarrow>
                                       (case ask_modify_dep keys of
                                          Inl e \<Rightarrow> Inl e
                                        | Inr modify_dep \<Rightarrow>
                                            Inr (if modify_dep \<in> set [''o'', ''oui'']
                                                 then Some d else dep t)))) of
                          Inl e \<Rightarrow> Inl e
                        | Inr dep1 \<Rightarrow>
                            Inr (True, parsed_tasks[k := t\<lparr>lab := new_lab, dep := dep1\<rparr>],
                                 Some t)))))"

subsection \<open>\<open>rmLabel\<close>, \<open>clearLabel\<close>, \<open>rmDep\<close>\<close>

text \<open>
  The loop that asks for the number of the label to remove: \<open>Inr None\<close> when the
  operator interrupts it, which the loop catches.
\<close>

fun ask_index :: "nat \<Rightarrow> key list \<Rightarrow> exn + nat option" where
  "ask_index len [] = Inl EOFError"
| "ask_index len (CtrlC # ks) = Inr None"
| "ask_index len (Line s # ks) =
     (case py_int s of
        Inl ValueError \<Rightarrow> ask_index len ks
      | Inl e \<Rightarrow> Inl e
      | Inr n \<Rightarrow> if 0 \<le> n \<and> n < int len then Inr (Some (nat n)) else ask_index len ks)"

text \<open>
  These three functions assign \<open>old_task\<close> in the loop only: when no record has the id,
  the \<open>return\<close> reads a local variable that was never assigned.
\<close>

definition rmLabel ::
  "string list \<Rightarrow> string \<Rightarrow> key list \<Rightarrow> exn + bool \<times> task list \<times> task option" where
  "rmLabel tasks task_id keys =
     (case py_int task_id of
        Inl ValueError \<Rightarrow> Inr (False, [], None)
      | Inl e \<Rightarrow> Inl e
      | Inr i \<Rightarrow>
          (case parse_tasks tasks of
             Inl e \<Rightarrow> Inl e
           | Inr parsed_tasks \<Rightarrow>
               (case first_match i parsed_tasks of
                  None \<Rightarrow> Inl UnboundLocalError
                | Some k \<Rightarrow>
                    (let t = parsed_tasks ! k
                     in if lab t \<noteq> []
                        then (case ask_index (length (lab t)) keys of
                                Inl e \<Rightarrow> Inl e
                              | Inr None \<Rightarrow> Inr (False, parsed_tasks, None)
                              | Inr (Some n) \<Rightarrow>
                                  Inr (True,
                                       parsed_tasks[k := t\<lparr>lab := take n (lab t) @ drop (Suc n) (lab t)\<rparr>],
                                       Some t))
                        else Inr (True, parsed_tasks, Some t)))))"

definition clearLabel :: "string list \<Rightarrow> string \<Rightarrow> exn + bool \<times> task list \<times> task option" where
  "clearLabel tasks task_id =
     (case py_int task_id of
        Inl ValueError \<Rightarrow> Inr (False, [], None)
      | Inl e \<Rightarrow> Inl e
      | Inr i \<Rightarrow>
          (case parse_tasks tasks of
             Inl e \<Rightarrow> Inl e
           | Inr parsed_tasks \<Rightarrow>
               (case first_match i parsed_tasks of
                  None \<Rightarrow> Inl UnboundLocalError
                | Some k \<Rightarrow>
                    (let t = parsed_tasks ! k
                     in Inr (True, parsed_tasks[k := t\<lparr>lab := []\<rparr>], Some t)))))"

definition rmDep :: "string list \<Rightarrow> string \<Rightarrow> exn + bool \<times> task list \<times> task option" where
  "rmDep tasks task_id =
     (case py_int task_id of
        Inl ValueError \<Rightarrow> Inr (False, [], None)
      | Inl e \<Rightarrow> Inl e
      | Inr i \<Rightarrow>
          (case parse_tasks tasks of
             Inl e \<Rightarrow> Inl e
           | Inr parsed_tasks \<Rightarrow>
               (case first_match i parsed_tasks of
                  None \<Rightarrow> Inl UnboundLocalError
                | Some k \<Rightarrow>
                    (let t = parsed_tasks ! k
                     in Inr (True, parsed_tasks[k := t\<lparr>dep := None\<rparr>], Some t)))))"

section \<open>\<open>modify\<close> of \<open>src/commands.py\<close>\<close>

text \<open>
  The line that the commands write for a record when they rewrite the task file (and, for
  the record before the change, in the history).
\<close>

definition write_line :: "task \<Rightarrow> string" where
  "write_line t =
     py_str (tid t) @ '';'' @ desc t @ '';''
       @ (if lab t \<noteq> [] then py_join '','' (lab t) else ''None'') @ '';''
       @ (case state t of None \<Rightarrow> ''None'' | Some s \<Rightarrow> s) @ '';''
       @ (case dep t of None \<Rightarrow> ''None'' | Some d \<Rightarrow> if d \<noteq> 0 then py_str d else ''None'')
       @ [CHR 0x0A]"

text \<open>
  The files and the terminal are explicit state: the lines of the task file, the lines
  appended to \<open>historique.txt\<close>, and the messages printed. The clock is the parameter
  \<open>now\<close>.
\<close>

datatype message = No_change | Task_modified string | Task_not_found string

record files =
  task_file :: "string list"
  historique :: "string list"
  printed :: "message list"

definition commands_modify ::
  "string \<Rightarrow> files \<Rightarrow> string list \<Rightarrow> string option \<Rightarrow> string option \<Rightarrow> string
     \<Rightarrow> exn + files" where
  "commands_modify task_id fs tasks new_details new_status now =
     (case modify tasks task_id new_details new_status of
        Inl e \<Rightarrow> Inl e
      | Inr (found, updated_tasks, old_task) \<Rightarrow>
          if found
          then (case old_task of
                  None \<Rightarrow> Inl TypeError
                | Some old \<Rightarrow>
                    if find (\<lambda>t. tid t = tid old) updated_tasks = Some old
                    then Inr (fs\<lparr>printed := printed fs @ [No_change]\<rparr>)
                    else Inr (fs\<lparr>task_file := map write_line updated_tasks,
                                 printed := printed fs @ [Task_modified task_id],
                                 historique := historique fs
                                   @ [''[The description of this task was modified at '' @ now
                                        @ ''] '' @ write_line old]\<rparr>))
          else Inr (fs\<lparr>printed := printed fs @ [Task_not_found task_id]\<rparr>))"

section \<open>The first implementation, \<open>codes/core.py\<close>\<close>

text \<open>
  The directory \<open>codes\<close> holds the earlier implementation, whose tasks are the triples
  \<open>(tid, desc, lab)\<close>.
\<close>

record ctask =
  ctid :: int
  cdesc :: string
  clab :: "string list"

definition codes_parse_fields :: "string list \<Rightarrow> exn + ctask" where
  "codes_parse_fields parts =
     (case py_int (parts ! 0) of
        Inl e \<Rightarrow> Inl e
      | Inr i \<Rightarrow>
          Inr \<lparr>ctid = i, cdesc = parts ! 1,
               clab = (if 3 \<le> length parts \<and> parts ! 2 \<noteq> ''None''
                       then map py_strip
                              (filter (\<lambda>label. py_strip label \<noteq> [])
                                 (py_split (CHR '','') (parts ! 2)))
                       else [])\<rparr>)"

definition codes_parse_line :: "string \<Rightarrow> exn + ctask option" where
  "codes_parse_line raw =
     (let line = py_strip raw
      in if line = [] then Inr None
         else (let parts = py_split (CHR '';'') line
               in if 2 \<le> length parts
                  then (case codes_parse_fields parts of
                          Inr t \<Rightarrow> Inr (Some t)
                        | Inl ValueError \<Rightarrow> Inr None
                        | Inl e \<Rightarrow> Inl e)
                  else Inr None))"

fun codes_parse_tasks :: "string list \<Rightarrow> exn + ctask list" where
  "codes_parse_tasks [] = Inr []"
| "codes_parse_tasks (line # rest) =
     (case codes_parse_line line of
        Inl e \<Rightarrow> Inl e
      | Inr r \<Rightarrow>
          (case codes_parse_tasks rest of
             Inl e \<Rightarrow> Inl e
           | Inr ts \<Rightarrow> Inr (case r of None \<Rightarrow> ts | Some t \<Rightarrow> t # ts)))"

text \<open>
  The loop of this \<open>rm\<close> starts with \<open>filtered_tasks = []\<close> inside its body. Both
  \<open>filtered_tasks\<close> and \<open>old_task\<close> are \<open>None\<close> here while nothing has been assigned
  to them.
\<close>

fun codes_rm_loop ::
  "int \<Rightarrow> ctask list \<Rightarrow> ctask list option \<Rightarrow> ctask option \<Rightarrow> ctask list option \<times> ctask option" where
  "codes_rm_loop i [] filtered_tasks old_task = (filtered_tasks, old_task)"
| "codes_rm_loop i (t # ts) filtered_tasks old_task =
     (if ctid t \<noteq> i then codes_rm_loop i ts (Some ([] @ [t])) old_task
      else codes_rm_loop i ts (Some []) (Some t))"

text \<open>
  This \<open>rm\<close> returns a pair for an id that is not a number and a triple otherwise.
\<close>

datatype rm_result = Pair_of bool "ctask list" | Triple_of bool "ctask list" "ctask option"

definition codes_rm :: "string list \<Rightarrow> string \<Rightarrow> exn + rm_result" where
  "codes_rm tasks task_id =
     (case py_int task_id of
        Inl ValueError \<Rightarrow>
          (case codes_parse_tasks tasks of Inl e \<Rightarrow> Inl e | Inr ts \<Rightarrow> Inr (Pair_of False ts))
      | Inl e \<Rightarrow> Inl e
      | Inr i \<Rightarrow>
          (case codes_parse_tasks tasks of
             Inl e \<Rightarrow> Inl e
           | Inr parsed_tasks \<Rightarrow>
               (case codes_rm_loop i parsed_tasks None None of
                  (None, old_task) \<Rightarrow> Inl UnboundLocalError
                | (Some filtered_tasks, old_task) \<Rightarrow>
                    (let found = (length filtered_tasks < length parsed_tasks)
                     in if \<not> found then Inr (Triple_of found filtered_tasks None)
                        else (case old_task of
                                None \<Rightarrow> Inl UnboundLocalError
                              | Some old \<Rightarrow> Inr (Triple_of found filtered_tasks (Some old)))))))"

section \<open>The parser always returns\<close>

lemma py_int_exn: "py_int s = Inl e \<Longrightarrow> e = ValueError"
  by (auto simp: py_int_def Let_def split: if_splits)

lemma parse_fields_exn: "parse_fields parts = Inl e \<Longrightarrow> e = ValueError"
  by (auto simp: parse_fields_def Let_def split: sum.splits if_splits dest: py_int_exn)

lemma parse_line_returns: "\<exists>r. parse_line l = Inr r"
  by (auto simp: parse_line_def Let_def split: sum.splits exn.splits dest: parse_fields_exn)

lemma parse_tasks_returns: "\<exists>ts. parse_tasks ls = Inr ts"
proof (induction ls)
  case Nil
  show ?case by simp
next
  case (Cons l ls)
  obtain r where "parse_line l = Inr r" using parse_line_returns by blast
  moreover obtain ts where "parse_tasks ls = Inr ts" using Cons by blast
  ultimately show ?case by simp
qed

lemma parse_tasks_skip: "parse_line l = Inr None \<Longrightarrow> parse_tasks (l # ls) = parse_tasks ls"
  using parse_tasks_returns [of ls] by auto

lemma parse_tasks_keep:
  "parse_line l = Inr (Some t) \<Longrightarrow> parse_tasks ls = Inr ts \<Longrightarrow> parse_tasks (l # ls) = Inr (t # ts)"
  by simp

lemma parse_line_blank: "py_strip l = [] \<Longrightarrow> parse_line l = Inr None"
  by (simp add: parse_line_def)

lemma parse_line_short:
  "length (py_split (CHR '';'') (py_strip l)) < 2 \<Longrightarrow> parse_line l = Inr None"
  by (simp add: parse_line_def Let_def)

lemma parse_line_bad_id:
  "py_int (hd (py_split (CHR '';'') (py_strip l))) = Inl ValueError \<Longrightarrow> parse_line l = Inr None"
  by (cases "py_split (CHR '';'') (py_strip l)")
     (auto simp: parse_line_def parse_fields_def Let_def)

lemma parse_line_legacy:
  assumes "py_split (CHR '';'') (py_strip l) = [a, b]" "py_int a = Inr i"
  shows "parse_line l = Inr (Some \<lparr>tid = i, desc = b, lab = [], state = Some ''suspended'', dep = None\<rparr>)"
proof -
  have "py_strip l \<noteq> []" using assms(1) by auto
  then show ?thesis using assms by (simp add: parse_line_def parse_fields_def)
qed

lemma parse_line_no_dep:
  assumes "py_strip l \<noteq> []" "5 \<le> length (py_split (CHR '';'') (py_strip l))"
    "py_int (hd (py_split (CHR '';'') (py_strip l))) = Inr i"
    "\<not> py_isdigit (py_strip (py_split (CHR '';'') (py_strip l) ! 4))"
  shows "\<exists>t. parse_line l = Inr (Some t) \<and> tid t = i \<and> dep t = None"
proof -
  have "py_split (CHR '';'') (py_strip l) ! 0 = hd (py_split (CHR '';'') (py_strip l))"
    using assms(2) by (cases "py_split (CHR '';'') (py_strip l)") auto
  then show ?thesis using assms by (simp add: parse_line_def parse_fields_def Let_def)
qed

text \<open>
  Claim C6, as the code has it: parsing always returns and never raises; a blank line, a
  line with fewer than two fields and a line whose first field is not an integer are
  skipped, and parsing goes on with the rest; a line of two fields gives a record with no
  label, the status \<open>suspended\<close> and no dependency; and a fifth field that is not all
  digits once the white space around it is removed gives no dependency.
\<close>

theorem parse_tasks_total:
  "(\<exists>parsed_tasks. parse_tasks tasks = Inr parsed_tasks)
   \<and> (py_strip l = [] \<or> length (py_split (CHR '';'') (py_strip l)) < 2
        \<or> py_int (hd (py_split (CHR '';'') (py_strip l))) = Inl ValueError
      \<longrightarrow> parse_tasks (l # ls) = parse_tasks ls)
   \<and> (py_split (CHR '';'') (py_strip l) = [a, b] \<and> py_int a = Inr i \<and> parse_tasks ls = Inr ts
      \<longrightarrow> parse_tasks (l # ls)
            = Inr (\<lparr>tid = i, desc = b, lab = [], state = Some ''suspended'', dep = None\<rparr> # ts))
   \<and> (py_strip l \<noteq> [] \<and> 5 \<le> length (py_split (CHR '';'') (py_strip l))
        \<and> py_int (hd (py_split (CHR '';'') (py_strip l))) = Inr j
        \<and> \<not> py_isdigit (py_strip (py_split (CHR '';'') (py_strip l) ! 4))
        \<and> parse_tasks ls = Inr ts
      \<longrightarrow> (\<exists>t. parse_tasks (l # ls) = Inr (t # ts) \<and> tid t = j \<and> dep t = None))"
proof (intro conjI impI)
  show "\<exists>parsed_tasks. parse_tasks tasks = Inr parsed_tasks" by (rule parse_tasks_returns)
next
  assume "py_strip l = [] \<or> length (py_split (CHR '';'') (py_strip l)) < 2
        \<or> py_int (hd (py_split (CHR '';'') (py_strip l))) = Inl ValueError"
  then have "parse_line l = Inr None"
    using parse_line_blank parse_line_short parse_line_bad_id by blast
  then show "parse_tasks (l # ls) = parse_tasks ls" by (rule parse_tasks_skip)
next
  assume "py_split (CHR '';'') (py_strip l) = [a, b] \<and> py_int a = Inr i \<and> parse_tasks ls = Inr ts"
  then show "parse_tasks (l # ls)
            = Inr (\<lparr>tid = i, desc = b, lab = [], state = Some ''suspended'', dep = None\<rparr> # ts)"
    using parse_line_legacy [of l a b i] by simp
next
  assume h: "py_strip l \<noteq> [] \<and> 5 \<le> length (py_split (CHR '';'') (py_strip l))
        \<and> py_int (hd (py_split (CHR '';'') (py_strip l))) = Inr j
        \<and> \<not> py_isdigit (py_strip (py_split (CHR '';'') (py_strip l) ! 4))
        \<and> parse_tasks ls = Inr ts"
  then obtain t where "parse_line l = Inr (Some t)" "tid t = j" "dep t = None"
    using parse_line_no_dep [of l j] by blast
  then show "\<exists>t. parse_tasks (l # ls) = Inr (t # ts) \<and> tid t = j \<and> dep t = None"
    using h by simp
qed

theorem parse_tasks_total_witness:
  "(\<exists>ts. parse_tasks [''x'', ''2;b''] = Inr ts)
   \<and> parse_tasks [''x'', ''2;b''] = parse_tasks [''2;b'']
   \<and> parse_tasks [''2;b'']
       = Inr [\<lparr>tid = 2, desc = ''b'', lab = [], state = Some ''suspended'', dep = None\<rparr>]
   \<and> (\<exists>t. parse_tasks [''1;a;None;started;x9''] = Inr [t] \<and> tid t = 1 \<and> dep t = None)"
proof -
  have a: "length (py_split (CHR '';'') (py_strip ''x'')) < 2" by code_simp
  have b: "py_split (CHR '';'') (py_strip ''2;b'') = [''2'', ''b'']" by code_simp
  have c: "py_int ''2'' = Inr 2" by code_simp
  have d: "parse_tasks [] = Inr []" by simp
  have e: "py_strip ''1;a;None;started;x9'' \<noteq> []" by code_simp
  have f: "5 \<le> length (py_split (CHR '';'') (py_strip ''1;a;None;started;x9''))" by code_simp
  have g: "py_int (hd (py_split (CHR '';'') (py_strip ''1;a;None;started;x9''))) = Inr 1" by code_simp
  have h: "\<not> py_isdigit (py_strip (py_split (CHR '';'') (py_strip ''1;a;None;started;x9'') ! 4))"
    by code_simp
  show ?thesis
    using parse_tasks_total [where tasks = "[''x'', ''2;b'']" and l = "''x''" and ls = "[''2;b'']"] a
      parse_tasks_total [where l = "''2;b''" and ls = "[]" and a = "''2''" and b = "''b''"
        and i = 2 and ts = "[]"] b c d
      parse_tasks_total [where l = "''1;a;None;started;x9''" and ls = "[]" and ts = "[]"
        and j = 1] e f g h
    by blast
qed

text \<open>
  Claim C6 says that a fifth field that is not all digits gives no dependency. The fifth
  field of the line below starts with a space, so it is not all digits, and the record
  depends on task 12: the parser strips the field before it tests it.
\<close>

theorem padded_dependency_counterexample:
  "py_split (CHR '';'') (py_strip ''1;a;None;started; 12'') ! 4 = '' 12''
   \<and> \<not> py_isdigit '' 12''
   \<and> parse_tasks [''1;a;None;started; 12'']
       = Inr [\<lparr>tid = 1, desc = ''a'', lab = [], state = Some ''started'', dep = Some 12\<rparr>]"
  by code_simp

text \<open>
  A first field that ends in the separator 28 is not an integer for \<open>int\<close>, although
  \<open>strip\<close> would remove that character: the line is skipped.
\<close>

lemma separator_after_id_dropped:
  "py_int [CHR ''7'', CHR 0x1C] = Inl ValueError
   \<and> parse_tasks [[CHR ''7'', CHR 0x1C, CHR '';'', CHR ''a'']] = Inr []"
  by code_simp

section \<open>The status in \<open>modify\<close>\<close>

text \<open>
  Whatever the store, \<open>modify\<close> keeps the status of the record when a new status is
  given, and stores \<open>None\<close> when none is given.
\<close>

lemma modify_state_given: "modify_state parsed_tasks t (Some s) = state t"
  by (simp add: modify_state_def)

lemma modify_state_absent: "modify_state parsed_tasks t None = None"
  by (simp add: modify_state_def)

text \<open>
  Claim C1: \<open>modify\<close> with a valid new status, on a record with no dependency (or with a
  completed one), returns \<open>found = True\<close> and a store in which the record has the new
  status. The code does not do this: on the store of the single task
  \<open>1;a;None;suspended;None\<close>, which has no dependency, \<open>modify\<close> with the new status
  \<open>started\<close> finds the record and leaves its status \<open>suspended\<close>.
\<close>

theorem modify_status_not_applied:
  "modify [''1;a;None;suspended;None''] ''1'' None (Some ''started'')
     = Inr (True,
            [\<lparr>tid = 1, desc = ''a'', lab = [], state = Some ''suspended'', dep = None\<rparr>],
            Some \<lparr>tid = 1, desc = ''a'', lab = [], state = Some ''suspended'', dep = None\<rparr>)"
  by code_simp

text \<open>
  Claim C5: a \<open>modify\<close> that changes neither the description nor the status reports no
  change and does not rewrite the task file; in particular one that supplies only the
  current description leaves the record, its status included, as it was. The code does
  not do this: with the description \<open>a\<close> that the record already has and no new status,
  the command rewrites the file with the status \<open>None\<close>, reports a modification and
  appends to the history.
\<close>

theorem modify_same_description_rewrites:
  "commands_modify ''1''
       \<lparr>task_file = [''1;a;None;suspended;None'' @ [CHR 0x0A]], historique = [], printed = []\<rparr>
       [''1;a;None;suspended;None'' @ [CHR 0x0A]] (Some ''a'') None ''2025-01-01 00:00:00''
     = Inr \<lparr>task_file = [''1;a;None;None;None'' @ [CHR 0x0A]],
            historique = [''[The description of this task was modified at 2025-01-01 00:00:00] ''
                            @ ''1;a;None;suspended;None'' @ [CHR 0x0A]],
            printed = [Task_modified ''1'']\<rparr>"
  by code_simp

text \<open>
  Claim C10: the parser does not validate the status, so a store may hold a status outside
  the four values, and every mutation preserves it and writes it back. The parser indeed
  keeps the token \<open>bogus\<close>; but a \<open>modify\<close> that gives only a new description replaces
  it with \<open>None\<close>, and the line written for the record carries \<open>None\<close> as its status.
\<close>

theorem unknown_status_lost_by_modify:
  "parse_tasks [''1;x;None;bogus;None'']
     = Inr [\<lparr>tid = 1, desc = ''x'', lab = [], state = Some ''bogus'', dep = None\<rparr>]
   \<and> modify [''1;x;None;bogus;None''] ''1'' (Some ''y'') None
     = Inr (True,
            [\<lparr>tid = 1, desc = ''y'', lab = [], state = None, dep = None\<rparr>],
            Some \<lparr>tid = 1, desc = ''x'', lab = [], state = Some ''bogus'', dep = None\<rparr>)
   \<and> map write_line [\<lparr>tid = 1, desc = ''y'', lab = [], state = None, dep = None\<rparr>]
     = [''1;y;None;None;None'' @ [CHR 0x0A]]"
  by code_simp

section \<open>Removing a task\<close>

text \<open>
  Claim C3: \<open>rm\<close> with an id of the store returns \<open>found = True\<close> and exactly the
  records with another id, in their order. The \<open>rm\<close> of \<open>codes/core.py\<close> does not do
  this: its loop empties \<open>filtered_tasks\<close> at every turn, so that on three tasks the
  removal of task 1 also loses task 2.
\<close>

theorem codes_rm_drops_other_records:
  "codes_rm [''1;a;None'', ''2;b;None'', ''3;c;None''] ''1''
     = Inr (Triple_of True [\<lparr>ctid = 3, cdesc = ''c'', clab = []\<rparr>]
              (Some \<lparr>ctid = 1, cdesc = ''a'', clab = []\<rparr>))"
  by code_simp

section \<open>An id that no record has\<close>

text \<open>
  Claim C4: every mutation called with an id that is not a number or that no record has
  returns \<open>found = False\<close>, does not raise, and leaves the store as it was. The code does
  not do this: the \<open>rm\<close> of \<open>codes/core.py\<close> raises on an absent id when the store has
  two records or none, and \<open>rmLabel\<close>, \<open>clearLabel\<close> and \<open>rmDep\<close> of \<open>src/core.py\<close>
  raise on every absent id, each time by returning a variable that was never assigned.
\<close>

theorem absent_id_raises:
  "codes_rm [''1;a;None'', ''2;b;None''] ''7'' = Inl UnboundLocalError
   \<and> codes_rm [] ''1'' = Inl UnboundLocalError
   \<and> rmLabel [''1;a;x;suspended;None''] ''2'' [] = Inl UnboundLocalError
   \<and> clearLabel [''1;a;x;suspended;None''] ''2'' = Inl UnboundLocalError
   \<and> rmDep [''1;a;x;suspended;None''] ''2'' = Inl UnboundLocalError"
  by code_simp

section \<open>The id of a new task\<close>

lemma foldl_max_Max: "foldl max (a::int) xs = Max (insert a (set xs))"
proof (induction xs arbitrary: a)
  case Nil
  show ?case by simp
next
  case (Cons x xs)
  have "Max (insert (max a x) (set xs)) = Max (insert a (insert x (set xs)))"
    by (cases "set xs = {}") (auto simp: max.assoc)
  then show ?case using Cons by simp
qed

lemma py_max_Max: "xs \<noteq> [] \<Longrightarrow> py_max xs = Max (set xs)"
  by (cases xs) (simp_all add: py_max_def foldl_max_Max)

lemma add_id:
  assumes "parse_tasks tasks = Inr parsed_tasks"
    "add tasks details labels status keys = Inr (Some (new_id, d, ll, line))"
  shows "new_id = (if parsed_tasks \<noteq> [] then py_max (map tid parsed_tasks) + 1 else 1)"
  using assms
  by (auto simp: add_def Let_def split: if_splits sum.splits exn.splits prod.splits)

lemma add_on_empty:
  assumes "parse_tasks tasks = Inr []"
  shows "add tasks details labels status keys
           = Inr (Some (1, details, (case labels of None \<Rightarrow> [] | Some ls \<Rightarrow> ls),
                   new_task_line 1 details
                     (if (case labels of None \<Rightarrow> [] | Some ls \<Rightarrow> ls) \<noteq> []
                      then py_join '','' (case labels of None \<Rightarrow> [] | Some ls \<Rightarrow> ls) else ''None'')
                     (if status \<notin> set statuses then ''suspended'' else status) None))"
  using assms by (simp add: add_def Let_def)

text \<open>
  Claim C8, as the code has it: \<open>add\<close> gives the new task the id 1 on an empty store,
  where it always returns, and one more than the greatest id of the store otherwise; so
  the new id is greater than every id in the store.
\<close>

theorem add_new_id:
  assumes "parse_tasks tasks = Inr parsed_tasks"
  shows "(parsed_tasks = [] \<longrightarrow>
            (\<exists>ll line. add tasks details labels status keys = Inr (Some (1, details, ll, line))))
       \<and> (add tasks details labels status keys = Inr (Some (new_id, d, ll, line)) \<longrightarrow>
            new_id = (if parsed_tasks = [] then 1 else Max (set (map tid parsed_tasks)) + 1)
            \<and> (\<forall>t \<in> set parsed_tasks. tid t < new_id))"
proof (intro conjI impI)
  assume "parsed_tasks = []"
  then show "\<exists>ll line. add tasks details labels status keys = Inr (Some (1, details, ll, line))"
    using assms add_on_empty [of tasks details labels status keys] by blast
next
  assume a: "add tasks details labels status keys = Inr (Some (new_id, d, ll, line))"
  show "new_id = (if parsed_tasks = [] then 1 else Max (set (map tid parsed_tasks)) + 1)"
    using add_id [OF assms a] py_max_Max [of "map tid parsed_tasks"] by auto
  then show "\<forall>t \<in> set parsed_tasks. tid t < new_id"
  proof (cases "parsed_tasks = []")
    case True
    then show ?thesis by simp
  next
    case False
    assume n: "new_id = (if parsed_tasks = [] then 1 else Max (set (map tid parsed_tasks)) + 1)"
    show ?thesis
    proof
      fix t assume "t \<in> set parsed_tasks"
      then have "tid t \<le> Max (set (map tid parsed_tasks))" by simp
      then show "tid t < new_id" using n False by simp
    qed
  qed
qed

theorem add_new_id_witness:
  "parse_tasks [''3;a'', ''1;b''] = Inr [\<lparr>tid = 3, desc = ''a'', lab = [], state = Some ''suspended'', dep = None\<rparr>,
                                      \<lparr>tid = 1, desc = ''b'', lab = [], state = Some ''suspended'', dep = None\<rparr>]
   \<and> add [''3;a'', ''1;b''] ''c'' None ''started'' [Line ''n'']
       = Inr (Some (4, ''c'', [], ''4;c;None;started;None'' @ [CHR 0x0A]))
   \<and> (4::int) = Max {3, 1} + 1
   \<and> parse_tasks [] = Inr []
   \<and> (\<exists>ll line. add [] ''c'' None ''started'' [] = Inr (Some (1, ''c'', ll, line)))"
proof -
  have p: "parse_tasks [''3;a'', ''1;b''] = Inr [\<lparr>tid = 3, desc = ''a'', lab = [], state = Some ''suspended'', dep = None\<rparr>,
                                      \<lparr>tid = 1, desc = ''b'', lab = [], state = Some ''suspended'', dep = None\<rparr>]"
    by code_simp
  have a: "add [''3;a'', ''1;b''] ''c'' None ''started'' [Line ''n'']
       = Inr (Some (4, ''c'', [], ''4;c;None;started;None'' @ [CHR 0x0A]))"
    by code_simp
  have e: "parse_tasks [] = Inr []" by simp
  from add_new_id [OF p, of "''c''" None "''started''" "[Line ''n'']" 4 "''c''" "[]"
      "''4;c;None;started;None'' @ [CHR 0x0A]"] a
  have "(4::int) = Max {3, 1} + 1" by simp
  moreover from add_new_id [OF e, of "''c''" None "''started''" "[]"]
  have "\<exists>ll line. add [] ''c'' None ''started'' [] = Inr (Some (1, ''c'', ll, line))" by simp
  ultimately show ?thesis using p a e by blast
qed

text \<open>
  Claim C8 concludes that an id that was assigned and then removed is never assigned
  again. It is: on the store of task 1, \<open>add\<close> assigns the id 2; once task 2 is removed
  and the file rewritten, the next \<open>add\<close> assigns the id 2 again.
\<close>

theorem removed_id_assigned_again:
  "add [''1;a;None;suspended;None'' @ [CHR 0x0A]] ''b'' None ''suspended'' [Line ''n'']
     = Inr (Some (2, ''b'', [], ''2;b;None;suspended;None'' @ [CHR 0x0A]))
   \<and> rm [''1;a;None;suspended;None'' @ [CHR 0x0A], ''2;b;None;suspended;None'' @ [CHR 0x0A]] ''2''
     = Inr (True,
            [\<lparr>tid = 1, desc = ''a'', lab = [], state = Some ''suspended'', dep = None\<rparr>],
            Some \<lparr>tid = 2, desc = ''b'', lab = [], state = Some ''suspended'', dep = None\<rparr>)
   \<and> map write_line [\<lparr>tid = 1, desc = ''a'', lab = [], state = Some ''suspended'', dep = None\<rparr>]
     = [''1;a;None;suspended;None'' @ [CHR 0x0A]]
   \<and> add [''1;a;None;suspended;None'' @ [CHR 0x0A]] ''c'' None ''suspended'' [Line ''n'']
     = Inr (Some (2, ''c'', [], ''2;c;None;suspended;None'' @ [CHR 0x0A]))"
  by code_simp

section \<open>The dialogue of \<open>add\<close>\<close>

lemma ask_dependence_skip:
  "\<forall>a \<in> set bad. py_lower a \<notin> set [''o'', ''n'', ''oui'', ''non'']
     \<Longrightarrow> ask_dependence (map Line bad @ ks) = ask_dependence ks"
  by (induction bad) auto

lemma ask_which_skip:
  "\<forall>b \<in> set bad. py_int b = Inl ValueError
                      \<or> (\<exists>n. py_int b = Inr n \<and> n \<notin> set (map tid parsed_tasks))
     \<Longrightarrow> ask_which parsed_tasks status (map Line bad @ ks) = ask_which parsed_tasks status ks"
  by (induction bad) auto

lemma parent_status_first:
  "\<forall>u \<in> set pre. tid u \<noteq> tid p \<Longrightarrow> parent_status (pre @ p # post) (tid p) = state p"
  by (induction pre) auto

section \<open>The ids of the store under the operations\<close>

lemma first_match_Some:
  "first_match i ts = Some k \<Longrightarrow> k < length ts \<and> tid (ts ! k) = i"
  by (induction ts arbitrary: k) (auto split: if_splits)

lemma first_match_None: "first_match i ts = None \<longleftrightarrow> i \<notin> set (map tid ts)"
  by (induction ts) auto

text \<open>
  On an id that no record has, \<open>modify\<close> and \<open>add_options\<close> return \<open>found = False\<close>
  and the store as it was parsed.
\<close>

lemma modify_absent:
  assumes "parse_tasks tasks = Inr parsed_tasks" "py_int task_id = Inr i"
    "i \<notin> set (map tid parsed_tasks)"
  shows "modify tasks task_id new_details new_status = Inr (False, parsed_tasks, None)"
proof -
  have "first_match i parsed_tasks = None" using assms(3) first_match_None by blast
  then show ?thesis using assms(1,2) by (simp add: modify_def)
qed

lemma add_options_absent:
  assumes "parse_tasks tasks = Inr parsed_tasks" "py_int task_id = Inr i"
    "i \<notin> set (map tid parsed_tasks)"
  shows "add_options tasks task_id labels id_dep keys = Inr (False, parsed_tasks, None)"
proof -
  have "first_match i parsed_tasks = None" using assms(3) first_match_None by blast
  then show ?thesis using assms(1,2) by (simp add: add_options_def)
qed

lemma map_tid_update:
  "k < length ts \<Longrightarrow> tid t = tid (ts ! k) \<Longrightarrow> map tid (ts[k := t]) = map tid ts"
  by (simp add: map_update list_update_same_conv)

lemma rm_loop_fst:
  "fst (rm_loop i ts filtered_tasks old_task) = filtered_tasks @ filter (\<lambda>t. tid t \<noteq> i) ts"
  by (induction ts arbitrary: filtered_tasks old_task) auto

lemma rm_loop_snd_absent:
  "i \<notin> set (map tid ts) \<Longrightarrow> snd (rm_loop i ts filtered_tasks old_task) = old_task"
  by (induction ts arbitrary: filtered_tasks old_task) auto

lemma rm_loop_snd_present:
  "i \<in> set (map tid ts)
     \<Longrightarrow> \<exists>old. snd (rm_loop i ts filtered_tasks old_task) = Some old \<and> old \<in> set ts \<and> tid old = i"
proof (induction ts arbitrary: filtered_tasks old_task)
  case Nil
  then show ?case by simp
next
  case (Cons t ts)
  show ?case
  proof (cases "i \<in> set (map tid ts)")
    case True
    then show ?thesis using Cons.IH by (cases "tid t = i") fastforce+
  next
    case False
    then have "tid t = i" using Cons.prems by auto
    then show ?thesis using False rm_loop_snd_absent [of i ts] by simp
  qed
qed

lemma filter_length_less:
  "i \<in> set (map tid ts) \<Longrightarrow> length (filter (\<lambda>t. tid t \<noteq> i) ts) < length ts"
  by (induction ts) (auto simp: less_Suc_eq_le)

lemma filter_length_same:
  "i \<notin> set (map tid ts) \<Longrightarrow> filter (\<lambda>t. tid t \<noteq> i) ts = ts"
  by (induction ts) auto

text \<open>
  The \<open>rm\<close> of \<open>src/core.py\<close> removes exactly the records with the id, and reports an
  absent id without a change.
\<close>

lemma rm_present:
  assumes "parse_tasks tasks = Inr parsed_tasks" "py_int task_id = Inr i"
    "i \<in> set (map tid parsed_tasks)"
  shows "\<exists>old. rm tasks task_id = Inr (True, filter (\<lambda>t. tid t \<noteq> i) parsed_tasks, Some old)
               \<and> old \<in> set parsed_tasks \<and> tid old = i"
proof -
  obtain old where o: "snd (rm_loop i parsed_tasks [] None) = Some old"
    "old \<in> set parsed_tasks" "tid old = i"
    using rm_loop_snd_present [OF assms(3)] by blast
  have f: "fst (rm_loop i parsed_tasks [] None) = filter (\<lambda>t. tid t \<noteq> i) parsed_tasks"
    by (simp add: rm_loop_fst)
  have "rm tasks task_id = Inr (True, filter (\<lambda>t. tid t \<noteq> i) parsed_tasks, Some old)"
    using assms(1,2) o(1) f filter_length_less [OF assms(3)]
    by (simp add: rm_def Let_def split_beta)
  then show ?thesis using o by blast
qed

lemma rm_absent:
  assumes "parse_tasks tasks = Inr parsed_tasks" "py_int task_id = Inr i"
    "i \<notin> set (map tid parsed_tasks)"
  shows "rm tasks task_id = Inr (False, parsed_tasks, None)"
  using assms filter_length_same [OF assms(3)]
  by (simp add: rm_def Let_def split_beta rm_loop_fst)

lemma rm_store:
  assumes "parse_tasks tasks = Inr parsed_tasks" "rm tasks task_id = Inr (found, store, old)"
  shows "\<exists>P. store = filter P parsed_tasks"
proof (cases "py_int task_id")
  case (Inl e)
  then have "e = ValueError" by (rule py_int_exn)
  then have "store = parsed_tasks" using Inl assms by (simp add: rm_def)
  then have "store = filter (\<lambda>t. True) parsed_tasks" by simp
  then show ?thesis by blast
next
  case (Inr i)
  then have "store = fst (rm_loop i parsed_tasks [] None)"
    using assms by (auto simp: rm_def Let_def split_beta split: if_splits option.splits)
  then show ?thesis using rm_loop_fst [of i parsed_tasks "[]" None] by auto
qed

lemma modify_store:
  assumes "parse_tasks tasks = Inr parsed_tasks"
    "modify tasks task_id new_details new_status = Inr (found, store, old)"
  shows "store = [] \<or> map tid store = map tid parsed_tasks"
  using assms
  by (auto simp: modify_def Let_def map_tid_update
           split: sum.splits exn.splits option.splits dest!: first_match_Some)

lemma add_options_store:
  assumes "parse_tasks tasks = Inr parsed_tasks"
    "add_options tasks task_id labels id_dep keys = Inr (found, store, old)"
  shows "store = [] \<or> map tid store = map tid parsed_tasks"
  using assms
  by (auto simp: add_options_def Let_def map_tid_update
           split: sum.splits exn.splits option.splits dest!: first_match_Some)

lemma rmLabel_store:
  assumes "parse_tasks tasks = Inr parsed_tasks"
    "rmLabel tasks task_id keys = Inr (found, store, old)"
  shows "store = [] \<or> map tid store = map tid parsed_tasks"
  using assms
  by (auto simp: rmLabel_def Let_def map_tid_update
           split: sum.splits exn.splits option.splits if_splits dest!: first_match_Some)

lemma clearLabel_store:
  assumes "parse_tasks tasks = Inr parsed_tasks"
    "clearLabel tasks task_id = Inr (found, store, old)"
  shows "store = [] \<or> map tid store = map tid parsed_tasks"
  using assms
  by (auto simp: clearLabel_def Let_def map_tid_update
           split: sum.splits exn.splits option.splits dest!: first_match_Some)

lemma rmDep_store:
  assumes "parse_tasks tasks = Inr parsed_tasks"
    "rmDep tasks task_id = Inr (found, store, old)"
  shows "store = [] \<or> map tid store = map tid parsed_tasks"
  using assms
  by (auto simp: rmDep_def Let_def map_tid_update
           split: sum.splits exn.splits option.splits dest!: first_match_Some)


text \<open>
  Claim C9, as the code has it: when the ids of the parsed store are pairwise distinct,
  so are the ids of the store that each of \<open>modify\<close>, \<open>rm\<close>, \<open>add_options\<close>,
  \<open>rmLabel\<close>, \<open>clearLabel\<close> and \<open>rmDep\<close> returns, and the id that \<open>add\<close> gives to
  the new task is not in the store.
\<close>

theorem mutations_keep_ids_distinct:
  assumes "parse_tasks tasks = Inr parsed_tasks" "distinct (map tid parsed_tasks)"
  shows "(modify tasks task_id new_details new_status = Inr (found, store, old)
            \<longrightarrow> distinct (map tid store))
       \<and> (rm tasks task_id = Inr (found, store, old) \<longrightarrow> distinct (map tid store))
       \<and> (add_options tasks task_id labels id_dep keys = Inr (found, store, old)
            \<longrightarrow> distinct (map tid store))
       \<and> (rmLabel tasks task_id keys = Inr (found, store, old) \<longrightarrow> distinct (map tid store))
       \<and> (clearLabel tasks task_id = Inr (found, store, old) \<longrightarrow> distinct (map tid store))
       \<and> (rmDep tasks task_id = Inr (found, store, old) \<longrightarrow> distinct (map tid store))
       \<and> (add tasks details labels' status keys = Inr (Some (new_id, d, ll, line))
            \<longrightarrow> distinct (map tid parsed_tasks @ [new_id]))"
proof (intro conjI impI)
  assume "modify tasks task_id new_details new_status = Inr (found, store, old)"
  then show "distinct (map tid store)"
    using modify_store [OF assms(1)] assms(2) by fastforce
next
  assume "rm tasks task_id = Inr (found, store, old)"
  then obtain P where "store = filter P parsed_tasks"
    using rm_store [OF assms(1)] by blast
  then show "distinct (map tid store)" using assms(2) by (simp add: distinct_map_filter)
next
  assume "add_options tasks task_id labels id_dep keys = Inr (found, store, old)"
  then show "distinct (map tid store)"
    using add_options_store [OF assms(1)] assms(2) by fastforce
next
  assume "rmLabel tasks task_id keys = Inr (found, store, old)"
  then show "distinct (map tid store)"
    using rmLabel_store [OF assms(1)] assms(2) by fastforce
next
  assume "clearLabel tasks task_id = Inr (found, store, old)"
  then show "distinct (map tid store)"
    using clearLabel_store [OF assms(1)] assms(2) by fastforce
next
  assume "rmDep tasks task_id = Inr (found, store, old)"
  then show "distinct (map tid store)"
    using rmDep_store [OF assms(1)] assms(2) by fastforce
next
  assume a: "add tasks details labels' status keys = Inr (Some (new_id, d, ll, line))"
  have n: "new_id = (if parsed_tasks \<noteq> [] then py_max (map tid parsed_tasks) + 1 else 1)"
    using add_id [OF assms(1) a] .
  have "new_id \<notin> set (map tid parsed_tasks)"
  proof (cases "parsed_tasks = []")
    case True
    then show ?thesis by simp
  next
    case False
    then have m: "new_id = Max (set (map tid parsed_tasks)) + 1"
      using n py_max_Max [of "map tid parsed_tasks"] by simp
    show ?thesis
    proof
      assume "new_id \<in> set (map tid parsed_tasks)"
      then have "new_id \<le> Max (set (map tid parsed_tasks))" by simp
      then show False using m by simp
    qed
  qed
  then show "distinct (map tid parsed_tasks @ [new_id])" using assms(2) by simp
qed

theorem mutations_keep_ids_distinct_witness:
  "distinct (map tid [\<lparr>tid = 1, desc = ''z'', lab = [''x'', ''y''], state = None, dep = None\<rparr>,
                      \<lparr>tid = 2, desc = ''b'', lab = [], state = Some ''started'', dep = Some 1\<rparr>])
   \<and> distinct (map tid [\<lparr>tid = 2, desc = ''b'', lab = [], state = Some ''started'', dep = Some 1\<rparr>])
   \<and> distinct (map tid [\<lparr>tid = 1, desc = ''a'', lab = [''x'', ''y'', ''w''], state = Some ''suspended'', dep = Some 2\<rparr>,
                        \<lparr>tid = 2, desc = ''b'', lab = [], state = Some ''started'', dep = Some 1\<rparr>])
   \<and> distinct (map tid [\<lparr>tid = 1, desc = ''a'', lab = [''x''], state = Some ''suspended'', dep = None\<rparr>,
                        \<lparr>tid = 2, desc = ''b'', lab = [], state = Some ''started'', dep = Some 1\<rparr>])
   \<and> distinct (map tid [\<lparr>tid = 1, desc = ''a'', lab = [], state = Some ''suspended'', dep = None\<rparr>,
                        \<lparr>tid = 2, desc = ''b'', lab = [], state = Some ''started'', dep = Some 1\<rparr>])
   \<and> distinct (map tid [\<lparr>tid = 1, desc = ''a'', lab = [''x'', ''y''], state = Some ''suspended'', dep = None\<rparr>,
                        \<lparr>tid = 2, desc = ''b'', lab = [], state = Some ''started'', dep = None\<rparr>])
   \<and> distinct (map tid [\<lparr>tid = 1, desc = ''a'', lab = [''x'', ''y''], state = Some ''suspended'', dep = None\<rparr>,
                        \<lparr>tid = 2, desc = ''b'', lab = [], state = Some ''started'', dep = Some 1\<rparr>] @ [3])"
proof -
  let ?T = "[''1;a;x,y;suspended;None'', ''2;b;None;started;1'']"
  let ?t1 = "\<lparr>tid = 1, desc = ''a'', lab = [''x'', ''y''], state = Some ''suspended'', dep = None\<rparr>"
  let ?t2 = "\<lparr>tid = 2, desc = ''b'', lab = [], state = Some ''started'', dep = Some 1\<rparr>"
  have p: "parse_tasks ?T = Inr [?t1, ?t2]" by code_simp
  have d: "distinct (map tid [?t1, ?t2])" by simp
  have m: "modify ?T ''1'' (Some ''z'') None
             = Inr (True, [?t1\<lparr>desc := ''z'', state := None\<rparr>, ?t2], Some ?t1)" by code_simp
  have r: "rm ?T ''1'' = Inr (True, [?t2], Some ?t1)" by code_simp
  have o: "add_options ?T ''1'' (Some [''x'', ''w'']) (Some 2) []
             = Inr (True, [?t1\<lparr>lab := [''x'', ''y'', ''w''], dep := Some 2\<rparr>, ?t2], Some ?t1)"
    by code_simp
  have l: "rmLabel ?T ''1'' [Line ''5'', Line ''1'']
             = Inr (True, [?t1\<lparr>lab := [''x'']\<rparr>, ?t2], Some ?t1)" by code_simp
  have c: "clearLabel ?T ''1'' = Inr (True, [?t1\<lparr>lab := []\<rparr>, ?t2], Some ?t1)" by code_simp
  have e: "rmDep ?T ''2'' = Inr (True, [?t1, ?t2\<lparr>dep := None\<rparr>], Some ?t2)" by code_simp
  have a: "add ?T ''c'' None ''started'' [Line ''n'']
             = Inr (Some (3, ''c'', [], ''3;c;None;started;None'' @ [CHR 0x0A]))" by code_simp
  from mutations_keep_ids_distinct [OF p d, of "''1''" "Some ''z''" None True
      "[?t1\<lparr>desc := ''z'', state := None\<rparr>, ?t2]" "Some ?t1"] m
  have 1: "distinct (map tid [?t1\<lparr>desc := ''z'', state := None\<rparr>, ?t2])" by blast
  from mutations_keep_ids_distinct [OF p d, of "''1''" _ _ True "[?t2]" "Some ?t1"] r
  have 2: "distinct (map tid [?t2])" by blast
  from mutations_keep_ids_distinct [OF p d, of "''1''" _ _ True
      "[?t1\<lparr>lab := [''x'', ''y'', ''w''], dep := Some 2\<rparr>, ?t2]" "Some ?t1"
      "Some [''x'', ''w'']" "Some 2" "[]"] o
  have 3: "distinct (map tid [?t1\<lparr>lab := [''x'', ''y'', ''w''], dep := Some 2\<rparr>, ?t2])" by blast
  from mutations_keep_ids_distinct [OF p d, of "''1''" _ _ True
      "[?t1\<lparr>lab := [''x'']\<rparr>, ?t2]" "Some ?t1" _ _ "[Line ''5'', Line ''1'']"] l
  have 4: "distinct (map tid [?t1\<lparr>lab := [''x'']\<rparr>, ?t2])" by blast
  from mutations_keep_ids_distinct [OF p d, of "''1''" _ _ True
      "[?t1\<lparr>lab := []\<rparr>, ?t2]" "Some ?t1"] c
  have 5: "distinct (map tid [?t1\<lparr>lab := []\<rparr>, ?t2])" by blast
  from mutations_keep_ids_distinct [OF p d, of "''2''" _ _ True
      "[?t1, ?t2\<lparr>dep := None\<rparr>]" "Some ?t2"] e
  have 6: "distinct (map tid [?t1, ?t2\<lparr>dep := None\<rparr>])" by blast
  from mutations_keep_ids_distinct [OF p d, of _ _ _ _ _ _ _ _ "[Line ''n'']" "''c''" None
      "''started''" 3 "''c''" "[]" "''3;c;None;started;None'' @ [CHR 0x0A]"] a
  have 7: "distinct (map tid [?t1, ?t2] @ [3])" by blast
  show ?thesis using 1 2 3 4 5 6 7 by simp
qed

text \<open>
  Claim C9 also says that every store produced by parsing has pairwise-distinct ids. The
  parser keeps every well-formed line: two lines with the id 1 give two records with the
  id 1.
\<close>

theorem parse_keeps_duplicate_ids:
  "parse_tasks [''1;a'', ''1;b'']
     = Inr [\<lparr>tid = 1, desc = ''a'', lab = [], state = Some ''suspended'', dep = None\<rparr>,
            \<lparr>tid = 1, desc = ''b'', lab = [], state = Some ''suspended'', dep = None\<rparr>]
   \<and> \<not> distinct (map tid
            [\<lparr>tid = 1, desc = ''a'', lab = [], state = Some ''suspended'', dep = None\<rparr>,
             \<lparr>tid = 1, desc = ''b'', lab = [], state = Some ''suspended'', dep = None\<rparr>])"
  by code_simp

section \<open>Writing a record and parsing it back\<close>

subsection \<open>Digits\<close>

lemma is_decimal_digit: "k < 10 \<Longrightarrow> is_decimal (char_of (48 + k :: nat))"
  by (simp add: is_decimal_def)

lemma digit_val_digit: "k < 10 \<Longrightarrow> digit_val (char_of (48 + k :: nat)) = k"
  by (simp add: digit_val_def)

lemma decimal_not_space: "is_decimal c \<Longrightarrow> \<not> is_space c"
  by (auto simp: is_decimal_def is_space_def Let_def)

lemma decimal_not_int_space: "is_decimal c \<Longrightarrow> \<not> is_int_space c"
  by (auto simp: is_decimal_def is_int_space_def Let_def)

lemma decimal_isdigit: "is_decimal c \<Longrightarrow> isdigit_chr c"
  by (auto simp: is_decimal_def isdigit_chr_def Let_def)

lemma decimal_not_sep:
  "is_decimal c \<Longrightarrow> c \<noteq> CHR ''-'' \<and> c \<noteq> CHR ''+'' \<and> c \<noteq> CHR ''_'' \<and> c \<noteq> CHR '';''"
  by (auto simp: is_decimal_def)

lemma digits_val_snoc: "digits_val (s @ [c]) = 10 * digits_val s + digit_val c"
  by (simp add: digits_val_def)

lemma show_nat_decimal: "list_all is_decimal (show_nat n)"
proof (induction n rule: show_nat.induct)
  case (1 n)
  show ?case
  proof (cases "n < 10")
    case True
    then show ?thesis by (subst show_nat.simps) (simp add: is_decimal_digit)
  next
    case False
    then show ?thesis using 1 by (subst show_nat.simps) (simp add: is_decimal_digit)
  qed
qed

lemma show_nat_nonempty: "show_nat n \<noteq> []"
  by (subst show_nat.simps) simp

lemma show_nat_value: "digits_val (show_nat n) = n"
proof (induction n rule: show_nat.induct)
  case (1 n)
  show ?case
  proof (cases "n < 10")
    case True
    then show ?thesis
      by (subst show_nat.simps) (simp add: digits_val_def digit_val_digit)
  next
    case False
    then have "digits_val (show_nat (n div 10)) = n div 10" using 1 by simp
    then show ?thesis using False
      by (subst show_nat.simps) (simp add: digits_val_snoc digit_val_digit)
  qed
qed

subsection \<open>\<open>strip\<close> and \<open>split\<close>\<close>

lemma dropWhile_keeps: "s = [] \<or> \<not> P (hd s) \<Longrightarrow> dropWhile P s = s"
  by (cases s) auto

lemma int_strip_same:
  assumes "s \<noteq> []" "\<not> is_int_space (hd s)" "\<not> is_int_space (last s)"
  shows "int_strip s = s"
proof -
  have "dropWhile is_int_space s = s" using assms by (simp add: dropWhile_keeps)
  moreover have "dropWhile is_int_space (rev s) = rev s"
    using assms by (intro dropWhile_keeps) (simp add: hd_rev)
  ultimately show ?thesis by (simp add: int_strip_def)
qed

lemma py_strip_same:
  assumes "s \<noteq> []" "\<not> is_space (hd s)" "\<not> is_space (last s)"
  shows "py_strip s = s"
proof -
  have "dropWhile is_space s = s" using assms by (simp add: dropWhile_keeps)
  moreover have "dropWhile is_space (rev s) = rev s"
    using assms by (intro dropWhile_keeps) (simp add: hd_rev)
  ultimately show ?thesis by (simp add: py_strip_def)
qed

lemma py_strip_newline:
  assumes "s \<noteq> []" "\<not> is_space (hd s)" "\<not> is_space (last s)"
  shows "py_strip (s @ [CHR 0x0A]) = s"
proof -
  have a: "dropWhile is_space (s @ [CHR 0x0A]) = s @ [CHR 0x0A]"
    using assms by (intro dropWhile_keeps) simp
  have b: "is_space (CHR 0x0A)" by (simp add: is_space_def)
  have c: "dropWhile is_space (rev s) = rev s"
    using assms by (intro dropWhile_keeps) (simp add: hd_rev)
  show ?thesis using a b c by (simp add: py_strip_def)
qed

lemma py_split_none: "sep \<notin> set s \<Longrightarrow> py_split sep s = [s]"
  by (induction s) (auto simp: Let_def)

lemma py_split_nonempty: "py_split sep s \<noteq> []"
  by (induction s) (auto simp: Let_def)

lemma py_split_first:
  "sep \<notin> set a \<Longrightarrow> py_split sep (a @ sep # b) = a # py_split sep b"
  by (induction a) (auto simp: Let_def)

lemma py_split_join:
  "ls \<noteq> [] \<Longrightarrow> \<forall>l \<in> set ls. sep \<notin> set l \<Longrightarrow> py_split sep (py_join [sep] ls) = ls"
proof (induction "[sep]" ls rule: py_join.induct)
  case 1
  then show ?case by simp
next
  case (2 x)
  then show ?case by (simp add: py_split_none)
next
  case (3 x y ys)
  then show ?case by (simp add: py_split_first)
qed

lemma py_join_set: "set (py_join [sep] ls) \<subseteq> insert sep (\<Union> (set ` set ls))"
  by (induction "[sep]" ls rule: py_join.induct) auto

subsection \<open>\<open>int\<close> after \<open>str\<close>\<close>

lemma py_int_show_nat: "py_int (show_nat n) = Inr (int n)"
proof -
  let ?s = "show_nat n"
  have ne: "?s \<noteq> []" by (rule show_nat_nonempty)
  have dec: "list_all is_decimal ?s" by (rule show_nat_decimal)
  have h: "is_decimal (hd ?s)" using ne dec by (cases ?s) auto
  have l: "is_decimal (last ?s)" using ne dec by (simp add: list_all_iff)
  have st: "int_strip ?s = ?s"
    using ne h l by (simp add: int_strip_same decimal_not_int_space)
  have "CHR ''_'' \<notin> set ?s" using dec decimal_not_sep by (auto simp: list_all_iff)
  then have sp: "py_split (CHR ''_'') ?s = [?s]" by (rule py_split_none)
  have sg: "hd ?s \<noteq> CHR ''-''" "hd ?s \<noteq> CHR ''+''" using h decimal_not_sep by blast+
  show ?thesis
    using st sp sg ne dec by (simp add: py_int_def Let_def show_nat_value)
qed

lemma py_int_py_str: "py_int (py_str i) = Inr i"
proof (cases "i < 0")
  case False
  then show ?thesis by (simp add: py_str_def py_int_show_nat)
next
  case True
  let ?s = "show_nat (nat (- i))"
  have ne: "?s \<noteq> []" by (rule show_nat_nonempty)
  have dec: "list_all is_decimal ?s" by (rule show_nat_decimal)
  have l: "is_decimal (last ?s)" using ne dec by (simp add: list_all_iff)
  have m: "\<not> is_int_space (CHR ''-'')" by (simp add: is_int_space_def)
  have st: "int_strip (CHR ''-'' # ?s) = CHR ''-'' # ?s"
    using ne l m by (intro int_strip_same) (simp_all add: decimal_not_int_space)
  have "CHR ''_'' \<notin> set ?s" using dec decimal_not_sep by (auto simp: list_all_iff)
  then have sp: "py_split (CHR ''_'') ?s = [?s]" by (rule py_split_none)
  show ?thesis
    using True st sp ne dec by (simp add: py_str_def py_int_def Let_def show_nat_value)
qed


subsection \<open>The line of a record, parsed back\<close>

lemma py_str_chars: "c \<in> set (py_str i) \<Longrightarrow> is_decimal c \<or> c = CHR ''-''"
  using show_nat_decimal by (auto simp: py_str_def list_all_iff split: if_splits)

lemma py_str_nonempty: "py_str i \<noteq> []"
  by (simp add: py_str_def show_nat_nonempty)

lemma py_str_no_semicolon: "CHR '';'' \<notin> set (py_str i)"
  using py_str_chars [of "CHR '';''" i] by (auto simp: is_decimal_def)

lemma py_str_hd: "\<not> is_space (hd (py_str i))"
proof -
  have "hd (py_str i) \<in> set (py_str i)" using py_str_nonempty by simp
  then have "is_decimal (hd (py_str i)) \<or> hd (py_str i) = CHR ''-''" by (rule py_str_chars)
  then show ?thesis using decimal_not_space by (auto simp: is_space_def)
qed

lemma py_str_last: "\<not> is_space (last (py_str i))"
proof -
  have "last (py_str i) \<in> set (py_str i)" using py_str_nonempty by simp
  then have "is_decimal (last (py_str i)) \<or> last (py_str i) = CHR ''-''" by (rule py_str_chars)
  then show ?thesis using decimal_not_space by (auto simp: is_space_def)
qed

lemma py_str_positive_isdigit: "0 < d \<Longrightarrow> py_isdigit (py_str d)"
  using show_nat_decimal [of "nat d"] show_nat_nonempty [of "nat d"]
  by (auto simp: py_str_def py_isdigit_def list_all_iff decimal_isdigit)

lemma py_strip_py_str: "py_strip (py_str i) = py_str i"
  by (simp add: py_strip_same py_str_nonempty py_str_hd py_str_last)

lemma status_facts:
  "s \<in> set statuses \<Longrightarrow> CHR '';'' \<notin> set s \<and> py_strip s = s \<and> s \<noteq> []"
  by (auto simp: statuses_def py_strip_def is_space_def)

lemma join_not_None:
  assumes "ls \<noteq> []" "ls \<noteq> [''None'']" "\<forall>l \<in> set ls. CHR '','' \<notin> set l"
  shows "py_join '','' ls \<noteq> ''None''"
proof
  assume a: "py_join '','' ls = ''None''"
  have "py_split (CHR '','') (py_join [CHR '',''] ls) = ls"
    using assms(1,3) by (rule py_split_join)
  moreover have "py_split (CHR '','') ''None'' = [''None'']" by (simp add: py_split_none)
  ultimately show False using a assms(2) by simp
qed

lemma join_no_semicolon:
  assumes "\<forall>l \<in> set ls. CHR '';'' \<notin> set l"
  shows "CHR '';'' \<notin> set (py_join '','' ls)"
  using py_join_set [of "CHR '',''" ls] assms by auto

lemma parse_fields_five:
  "py_int a = Inr i \<Longrightarrow>
   parse_fields [a, d, l, st, p] =
     (if py_isdigit (py_strip p)
      then (case py_int (py_strip p) of
              Inl e \<Rightarrow> Inl e
            | Inr dd \<Rightarrow>
                Inr \<lparr>tid = i, desc = d,
                     lab = (if l \<noteq> ''None''
                            then map py_strip (filter (\<lambda>label. py_strip label \<noteq> [])
                                   (py_split (CHR '','') l))
                            else []),
                     state = Some (if py_strip st \<noteq> [] then py_strip st else ''suspended''),
                     dep = Some dd\<rparr>)
      else Inr \<lparr>tid = i, desc = d,
                lab = (if l \<noteq> ''None''
                       then map py_strip (filter (\<lambda>label. py_strip label \<noteq> [])
                              (py_split (CHR '','') l))
                       else []),
                state = Some (if py_strip st \<noteq> [] then py_strip st else ''suspended''),
                dep = None\<rparr>)"
  by (simp add: parse_fields_def cong: sum.case_cong)

lemma parse_fields_written:
  assumes "\<forall>l \<in> set (lab t). l \<noteq> [] \<and> CHR '','' \<notin> set l \<and> py_strip l = l"
    and "lab t \<noteq> [''None'']"
    and "state t = Some s" "s \<in> set statuses"
    and "dep t = None \<or> (\<exists>d. dep t = Some d \<and> 0 < d)"
  shows "parse_fields
           [py_str (tid t), desc t,
            if lab t \<noteq> [] then py_join '','' (lab t) else ''None'', s,
            case dep t of None \<Rightarrow> ''None'' | Some d \<Rightarrow> if d \<noteq> 0 then py_str d else ''None'']
         = Inr t"
proof -
  define L where "L = (if lab t \<noteq> [] then py_join '','' (lab t) else ''None'')"
  define P where
    "P = (case dep t of None \<Rightarrow> ''None'' | Some d \<Rightarrow> if d \<noteq> 0 then py_str d else ''None'')"
  have labs: "(if L \<noteq> ''None''
               then map py_strip (filter (\<lambda>label. py_strip label \<noteq> [])
                      (py_split (CHR '','') L))
               else []) = lab t"
  proof (cases "lab t = []")
    case True
    then show ?thesis by (simp add: L_def)
  next
    case False
    have n: "py_join '','' (lab t) \<noteq> ''None''"
      using False assms(1,2) by (intro join_not_None) auto
    have sp: "py_split (CHR '','') (py_join [CHR '',''] (lab t)) = lab t"
      using False assms(1) by (intro py_split_join) auto
    have f: "filter (\<lambda>label. py_strip label \<noteq> []) (lab t) = lab t"
      using assms(1) by (intro filter_True) auto
    have m: "map py_strip (lab t) = lab t"
      using assms(1) by (intro map_idI) auto
    show ?thesis using False n sp f m by (simp add: L_def)
  qed
  have st: "(if py_strip s \<noteq> [] then py_strip s else ''suspended'') = s"
    using status_facts [OF assms(4)] by simp
  have nd: "\<not> py_isdigit (py_strip ''None'')"
    by (simp add: py_strip_def is_space_def py_isdigit_def isdigit_chr_def)
  have i: "py_int (py_str (tid t)) = Inr (tid t)" by (rule py_int_py_str)
  have "parse_fields [py_str (tid t), desc t, L, s, P] = Inr t"
  proof (cases "dep t")
    case None
    then have "P = ''None''" by (simp add: P_def)
    then show ?thesis
      unfolding parse_fields_five [OF i] labs st using nd None assms(3) by simp
  next
    case (Some d)
    then have pos: "0 < d" using assms(5) by auto
    then have "P = py_str d" using Some by (simp add: P_def)
    then show ?thesis
      unfolding parse_fields_five [OF i] labs st
      using Some assms(3) py_str_positive_isdigit [OF pos]
      by (simp add: py_strip_py_str py_int_py_str)
  qed
  then show ?thesis by (simp add: L_def P_def)
qed


text \<open>
  Claim C2, as the code has it: the line written for a record parses back to the same
  record when the id is positive, the description has no semicolon, every label is
  non-empty, has no semicolon, no comma and no white space at either end, the labels are
  not the single label \<open>None\<close>, the status is one of the four, and the dependency is
  absent or positive.
\<close>

theorem write_line_parsed_back:
  assumes "0 < tid t"
    and "CHR '';'' \<notin> set (desc t)"
    and "\<forall>l \<in> set (lab t). l \<noteq> [] \<and> CHR '';'' \<notin> set l \<and> CHR '','' \<notin> set l \<and> py_strip l = l"
    and "lab t \<noteq> [''None'']"
    and "state t = Some s" "s \<in> set statuses"
    and "dep t = None \<or> (\<exists>d. dep t = Some d \<and> 0 < d)"
  shows "parse_tasks [write_line t] = Inr [t]"
proof -
  define A where "A = py_str (tid t)"
  define L where "L = (if lab t \<noteq> [] then py_join '','' (lab t) else ''None'')"
  define P where
    "P = (case dep t of None \<Rightarrow> ''None'' | Some d \<Rightarrow> if d \<noteq> 0 then py_str d else ''None'')"
  define x where "x = A @ '';'' @ desc t @ '';'' @ L @ '';'' @ s @ '';'' @ P"
  have w: "write_line t = x @ [CHR 0x0A]"
    using assms(5) by (simp add: write_line_def x_def A_def L_def P_def)
  have A: "A \<noteq> []" "CHR '';'' \<notin> set A" "\<not> is_space (hd A)"
    by (simp_all add: A_def py_str_nonempty py_str_no_semicolon py_str_hd)
  have L: "CHR '';'' \<notin> set L"
    using assms(3) join_no_semicolon [of "lab t"] by (auto simp: L_def)
  have S: "CHR '';'' \<notin> set s" using status_facts [OF assms(6)] by simp
  have P: "P \<noteq> []" "CHR '';'' \<notin> set P" "\<not> is_space (last P)"
    using py_str_nonempty py_str_no_semicolon py_str_last
    by (auto simp: P_def is_space_def split: option.splits)
  have ne: "x \<noteq> []" using A(1) by (simp add: x_def)
  have h: "hd x = hd A" using A(1) by (simp add: x_def)
  have l: "last x = last P" using P(1) by (simp add: x_def)
  have strip: "py_strip (write_line t) = x"
    unfolding w using ne h l A(3) P(3) by (intro py_strip_newline) simp_all
  have split: "py_split (CHR '';'') x = [A, desc t, L, s, P]"
    using A(2) assms(2) L S P(2)
    by (simp add: x_def py_split_first py_split_none)
  have fields: "parse_fields [A, desc t, L, s, P] = Inr t"
    unfolding A_def L_def P_def
    using assms(3,4,5,6,7) by (intro parse_fields_written) auto
  have "parse_line (write_line t) = Inr (Some t)"
    using strip split fields ne by (simp add: parse_line_def)
  then show ?thesis by simp
qed

theorem write_line_parsed_back_witness:
  "parse_tasks [write_line \<lparr>tid = 7, desc = ''Buy milk, now'', lab = [''urgent'', ''home''],
                             state = Some ''started'', dep = Some 3\<rparr>]
     = Inr [\<lparr>tid = 7, desc = ''Buy milk, now'', lab = [''urgent'', ''home''],
              state = Some ''started'', dep = Some 3\<rparr>]"
proof -
  let ?t = "\<lparr>tid = 7, desc = ''Buy milk, now'', lab = [''urgent'', ''home''],
             state = Some ''started'', dep = Some 3\<rparr>"
  have 1: "0 < tid ?t" by simp
  have 2: "CHR '';'' \<notin> set (desc ?t)" by simp
  have 3: "\<forall>l \<in> set (lab ?t). l \<noteq> [] \<and> CHR '';'' \<notin> set l \<and> CHR '','' \<notin> set l \<and> py_strip l = l"
    by code_simp
  have 4: "lab ?t \<noteq> [''None'']" by simp
  have 5: "state ?t = Some ''started''" by simp
  have 6: "''started'' \<in> set statuses" by (simp add: statuses_def)
  have 7: "dep ?t = None \<or> (\<exists>d. dep ?t = Some d \<and> 0 < d)" by simp
  show ?thesis using write_line_parsed_back [OF 1 2 3 4 5 6 7] .
qed

text \<open>
  Claim C2 states the round trip for every record with a description and a list of
  labels. Nothing is escaped in the line: a semicolon in the description moves the fields,
  a label is stripped and split at commas when read, and the label \<open>None\<close> reads as no
  label.
\<close>

theorem round_trip_counterexample:
  "parse_tasks [write_line \<lparr>tid = 1, desc = ''a;b'', lab = [], state = Some ''suspended'', dep = None\<rparr>]
     = Inr [\<lparr>tid = 1, desc = ''a'', lab = [''b''], state = Some ''None'', dep = None\<rparr>]
   \<and> parse_tasks [write_line \<lparr>tid = 1, desc = ''a'', lab = ['' x''], state = Some ''suspended'', dep = None\<rparr>]
     = Inr [\<lparr>tid = 1, desc = ''a'', lab = [''x''], state = Some ''suspended'', dep = None\<rparr>]
   \<and> parse_tasks [write_line \<lparr>tid = 1, desc = ''a'', lab = [''x,y''], state = Some ''suspended'', dep = None\<rparr>]
     = Inr [\<lparr>tid = 1, desc = ''a'', lab = [''x'', ''y''], state = Some ''suspended'', dep = None\<rparr>]
   \<and> parse_tasks [write_line \<lparr>tid = 1, desc = ''a'', lab = [''None''], state = Some ''suspended'', dep = None\<rparr>]
     = Inr [\<lparr>tid = 1, desc = ''a'', lab = [], state = Some ''suspended'', dep = None\<rparr>]"
  by code_simp

section \<open>The status of a new task with a dependency\<close>

lemma py_str_isdigit: "0 \<le> d \<Longrightarrow> py_isdigit (py_str d)"
  using show_nat_decimal [of "nat d"] show_nat_nonempty [of "nat d"]
  by (auto simp: py_str_def py_isdigit_def list_all_iff decimal_isdigit)

lemma py_str_negative_not_isdigit: "d < 0 \<Longrightarrow> \<not> py_isdigit (py_str d)"
  by (simp add: py_str_def py_isdigit_def isdigit_chr_def)

lemma new_task_line_parsed:
  assumes "CHR '';'' \<notin> set details" "CHR '';'' \<notin> set labels_str" "st \<in> set statuses"
  shows "\<exists>t. parse_tasks [new_task_line new_id details labels_str st (Some d)] = Inr [t]
             \<and> tid t = new_id \<and> desc t = details \<and> state t = Some st
             \<and> dep t = (if 0 \<le> d then Some d else None)"
proof -
  define A where "A = py_str new_id"
  define P where "P = py_str d"
  define x where "x = A @ '';'' @ details @ '';'' @ labels_str @ '';'' @ st @ '';'' @ P"
  have w: "new_task_line new_id details labels_str st (Some d) = x @ [CHR 0x0A]"
    by (simp add: new_task_line_def x_def A_def P_def)
  have A: "A \<noteq> []" "CHR '';'' \<notin> set A" "\<not> is_space (hd A)"
    by (simp_all add: A_def py_str_nonempty py_str_no_semicolon py_str_hd)
  have P: "P \<noteq> []" "CHR '';'' \<notin> set P" "\<not> is_space (last P)"
    by (simp_all add: P_def py_str_nonempty py_str_no_semicolon py_str_last)
  have S: "CHR '';'' \<notin> set st" "py_strip st = st" "st \<noteq> []"
    using status_facts [OF assms(3)] by auto
  have ne: "x \<noteq> []" using A(1) by (simp add: x_def)
  have h: "hd x = hd A" using A(1) by (simp add: x_def)
  have l: "last x = last P" using P(1) by (simp add: x_def)
  have strip: "py_strip (x @ [CHR 0x0A]) = x"
    using ne h l A(3) P(3) by (intro py_strip_newline) simp_all
  have split: "py_split (CHR '';'') x = [A, details, labels_str, st, P]"
    using A(2) assms(1,2) S(1) P(2) by (simp add: x_def py_split_first py_split_none)
  have i: "py_int A = Inr new_id" by (simp add: A_def py_int_py_str)
  have sp: "py_strip P = P" by (simp add: P_def py_strip_py_str)
  have "\<exists>t. parse_fields [A, details, labels_str, st, P] = Inr t
             \<and> tid t = new_id \<and> desc t = details \<and> state t = Some st
             \<and> dep t = (if 0 \<le> d then Some d else None)"
  proof (cases "0 \<le> d")
    case True
    then have "py_isdigit P" by (simp add: P_def py_str_isdigit)
    then show ?thesis
      unfolding parse_fields_five [OF i] sp using True S by (simp add: P_def py_int_py_str)
  next
    case False
    then have "\<not> py_isdigit P" by (simp add: P_def py_str_negative_not_isdigit)
    then show ?thesis
      unfolding parse_fields_five [OF i] sp using False S by simp
  qed
  then obtain t where t: "parse_fields [A, details, labels_str, st, P] = Inr t"
    "tid t = new_id" "desc t = details" "state t = Some st"
    "dep t = (if 0 \<le> d then Some d else None)" by blast
  have "parse_line (x @ [CHR 0x0A]) = Inr (Some t)"
    using strip split t(1) ne by (simp add: parse_line_def)
  then have "parse_tasks [new_task_line new_id details labels_str st (Some d)] = Inr [t]"
    using w by simp
  then show ?thesis using t by blast
qed

text \<open>
  Claim C7, as the code has it: on a non-empty store, when \<open>add\<close> is asked for the
  status \<open>started\<close> or \<open>completed\<close>, with a description and labels that have no
  semicolon, and the operator chooses a dependency on a task of the store, the record that
  the new line holds has the status \<open>suspended\<close> if that task is not \<open>completed\<close> and
  the requested status if it is. The operator's script is any number of answers that are
  refused, a yes, any number of entries that are not the id of a task, and then the id of
  the task \<open>p\<close>, the first record of the store with that id.
\<close>

theorem add_dependency_status:
  assumes "parse_tasks tasks = Inr parsed_tasks"
    and "parsed_tasks = pre @ p # post"
    and "\<forall>u \<in> set pre. tid u \<noteq> tid p"
    and "status = ''started'' \<or> status = ''completed''"
    and "keys = map Line bad1 @ Line yes # map Line bad2 @ Line which # rest"
    and "\<forall>a \<in> set bad1. py_lower a \<notin> set [''o'', ''n'', ''oui'', ''non'']"
    and "py_lower yes = ''o'' \<or> py_lower yes = ''oui''"
    and "\<forall>b \<in> set bad2. py_int b = Inl ValueError
                            \<or> (\<exists>n. py_int b = Inr n \<and> n \<notin> set (map tid parsed_tasks))"
    and "py_int which = Inr (tid p)"
    and "CHR '';'' \<notin> set details"
    and "\<forall>l \<in> set (case labels of None \<Rightarrow> [] | Some ls \<Rightarrow> ls). CHR '';'' \<notin> set l"
  shows "\<exists>new_id labels_list line t.
           add tasks details labels status keys = Inr (Some (new_id, details, labels_list, line))
           \<and> parse_tasks [line] = Inr [t]
           \<and> tid t = new_id \<and> desc t = details
           \<and> state t = Some (if state p = Some ''completed'' then status else ''suspended'')
           \<and> dep t = (if 0 \<le> tid p then Some (tid p) else None)"
proof -
  define labels_list where "labels_list = (case labels of None \<Rightarrow> [] | Some ls \<Rightarrow> ls)"
  define labels_str where
    "labels_str = (if labels_list \<noteq> [] then py_join '','' labels_list else ''None'')"
  define new_id where "new_id = py_max (map tid parsed_tasks) + 1"
  define st where "st = (if state p = Some ''completed'' then status else ''suspended'')"
  have ne: "parsed_tasks \<noteq> []" using assms(2) by simp
  have s0: "status \<in> set statuses" using assms(4) by (auto simp: statuses_def)
  have d: "ask_dependence keys = Inr (yes, map Line bad2 @ Line which # rest)"
    using ask_dependence_skip [OF assms(6)] assms(5,7) by auto
  have mem: "tid p \<in> set (map tid parsed_tasks)" using assms(2) by simp
  have ps: "parent_status parsed_tasks (tid p) = state p"
    using parent_status_first [OF assms(3)] assms(2) by simp
  have w: "ask_which parsed_tasks status (map Line bad2 @ Line which # rest) = Inr (tid p, st)"
    using ask_which_skip [OF assms(8)] assms(9,4) mem ps by (auto simp: st_def)
  have y: "py_lower yes \<in> set [''oui'', ''o'']" using assms(7) by auto
  have a: "add tasks details labels status keys
             = Inr (Some (new_id, details, labels_list,
                     new_task_line new_id details labels_str st (Some (tid p))))"
    using assms(1) ne s0 d w y
    by (simp add: add_def Let_def labels_list_def labels_str_def new_id_def)
  have ls: "CHR '';'' \<notin> set labels_str"
    using assms(11) join_no_semicolon [of labels_list]
    by (auto simp: labels_str_def labels_list_def)
  have st: "st \<in> set statuses" using s0 by (simp add: st_def statuses_def)
  obtain t where "parse_tasks [new_task_line new_id details labels_str st (Some (tid p))] = Inr [t]"
    "tid t = new_id" "desc t = details" "state t = Some st"
    "dep t = (if 0 \<le> tid p then Some (tid p) else None)"
    using new_task_line_parsed [OF assms(10) ls st, of new_id "tid p"] by blast
  then show ?thesis using a unfolding st_def by blast
qed

theorem add_dependency_status_witness:
  "(\<exists>new_id labels_list line t.
      add [''1;a;None;completed;None'', ''2;b;None;suspended;None''] ''c'' (Some [''u'', ''v'']) ''started''
          [Line ''maybe'', Line ''O'', Line ''x'', Line ''7'', Line ''1'']
        = Inr (Some (new_id, ''c'', labels_list, line))
      \<and> parse_tasks [line] = Inr [t] \<and> tid t = new_id \<and> desc t = ''c''
      \<and> state t = Some ''started'' \<and> dep t = Some 1)
   \<and> (\<exists>new_id labels_list line t.
      add [''1;a;None;completed;None'', ''2;b;None;suspended;None''] ''c'' (Some [''u'', ''v'']) ''started''
          [Line ''maybe'', Line ''O'', Line ''x'', Line ''7'', Line ''2'']
        = Inr (Some (new_id, ''c'', labels_list, line))
      \<and> parse_tasks [line] = Inr [t] \<and> tid t = new_id \<and> desc t = ''c''
      \<and> state t = Some ''suspended'' \<and> dep t = Some 2)"
proof -
  let ?t1 = "\<lparr>tid = 1, desc = ''a'', lab = [], state = Some ''completed'', dep = None\<rparr>"
  let ?t2 = "\<lparr>tid = 2, desc = ''b'', lab = [], state = Some ''suspended'', dep = None\<rparr>"
  have p: "parse_tasks [''1;a;None;completed;None'', ''2;b;None;suspended;None''] = Inr [?t1, ?t2]"
    by code_simp
  have b1: "\<forall>a \<in> set [''maybe'']. py_lower a \<notin> set [''o'', ''n'', ''oui'', ''non'']" by code_simp
  have y: "py_lower ''O'' = ''o'' \<or> py_lower ''O'' = ''oui''" by code_simp
  have x: "py_int ''x'' = Inl ValueError" by code_simp
  have s: "py_int ''7'' = Inr 7" by code_simp
  have b2: "\<forall>b \<in> set [''x'', ''7'']. py_int b = Inl ValueError
              \<or> (\<exists>n. py_int b = Inr n \<and> n \<notin> set (map tid [?t1, ?t2]))"
    using x s by simp
  have w1: "py_int ''1'' = Inr (tid ?t1)" by code_simp
  have w2: "py_int ''2'' = Inr (tid ?t2)" by code_simp
  have k1: "[Line ''maybe'', Line ''O'', Line ''x'', Line ''7'', Line ''1'']
              = map Line [''maybe''] @ Line ''O'' # map Line [''x'', ''7''] @ Line ''1'' # []" by simp
  have k2: "[Line ''maybe'', Line ''O'', Line ''x'', Line ''7'', Line ''2'']
              = map Line [''maybe''] @ Line ''O'' # map Line [''x'', ''7''] @ Line ''2'' # []" by simp
  have d1: "[?t1, ?t2] = [] @ ?t1 # [?t2]" by simp
  have d2: "[?t1, ?t2] = [?t1] @ ?t2 # []" by simp
  have n1: "\<forall>u \<in> set []. tid u \<noteq> tid ?t1" by simp
  have n2: "\<forall>u \<in> set [?t1]. tid u \<noteq> tid ?t2" by simp
  have s0: "''started'' = ''started'' \<or> ''started'' = ''completed''" by simp
  have c: "CHR '';'' \<notin> set ''c''" by simp
  have ll: "\<forall>l \<in> set (case Some [''u'', ''v''] of None \<Rightarrow> [] | Some ls \<Rightarrow> ls). CHR '';'' \<notin> set l"
    by simp
  from add_dependency_status [OF p d1 n1 s0 k1 b1 y b2 w1 c ll]
       add_dependency_status [OF p d2 n2 s0 k2 b1 y b2 w2 c ll]
  show ?thesis by simp
qed

text \<open>
  Claim C7 states this for every call of \<open>add\<close>. The new task exists as its line only,
  and nothing is escaped in it: with the description \<open>c;None;started;1\<close> the status
  that \<open>add\<close> lowered to \<open>suspended\<close> is written in the seventh field, and the record
  that the file holds has the status \<open>started\<close> and depends on task 1, which is
  \<open>suspended\<close>.
\<close>

theorem semicolon_description_counterexample:
  "add [''1;a;None;suspended;None''] ''c;None;started;1'' None ''started'' [Line ''o'', Line ''1'']
     = Inr (Some (2, ''c;None;started;1'', [],
              ''2;c;None;started;1;None;suspended;1'' @ [CHR 0x0A]))
   \<and> parse_tasks [''1;a;None;suspended;None'',
                   ''2;c;None;started;1;None;suspended;1'' @ [CHR 0x0A]]
     = Inr [\<lparr>tid = 1, desc = ''a'', lab = [], state = Some ''suspended'', dep = None\<rparr>,
            \<lparr>tid = 2, desc = ''c'', lab = [], state = Some ''started'', dep = Some 1\<rparr>]"
  by code_simp

end
